theory Spec2Isabelle
  imports Main "HOL-Library.Word" "HOL-Library.Sublist"
begin

text \<open>
  A shallow embedding of the indexing core of the Big Graph Server, from
  \<^verbatim>\<open>src/bgs/handlers.go\<close>: the XRPC handlers of package \<^verbatim>\<open>bgs\<close> (\<^verbatim>\<open>listRepos\<close>,
  \<^verbatim>\<open>requestCrawl\<close>, \<^verbatim>\<open>getRecord\<close>) and the indexer (\<^verbatim>\<open>HandleRepoEvent\<close>, the handlers of
  record creates, updates and deletes, \<^verbatim>\<open>handleInitActor\<close>, \<^verbatim>\<open>FetchAndIndexRepo\<close>).

  A handler is a function of the environment (the collaborators it calls and what they
  answer) and of the state (the tables of the relational store and the traces of what the
  collaborators were asked to do); it returns its Go result and the new state. An error is a
  value; a handler that returns an error returns the state it left behind as well, since
  only a transaction undoes what was written before the error.
\<close>

section \<open>Go values\<close>

text \<open>
  Go errors are values. The constructors below are the errors that the handlers of
  \<^verbatim>\<open>src/bgs/handlers.go\<close> build or receive:
  \<^item> \<open>ErrRecordNotFound\<close> is gorm's sentinel \<^verbatim>\<open>gorm.ErrRecordNotFound\<close>;
  \<^item> \<open>IpldErrNotFound\<close> is the missing-block error recognised by \<^verbatim>\<open>ipld.IsNotFound\<close>;
  \<^item> \<open>ErrSyntax\<close> and \<open>ErrRange\<close> are the two errors of \<^verbatim>\<open>strconv\<close>;
  \<^item> \<open>HTTPError code msg\<close> is \<^verbatim>\<open>echo.HTTPError\<close>, the only error that carries an HTTP status;
  \<^item> \<open>Errorf msg\<close> is \<^verbatim>\<open>fmt.Errorf\<close> without \<^verbatim>\<open>%w\<close>, \<open>Wrap msg e\<close> is \<^verbatim>\<open>fmt.Errorf\<close>
    with \<^verbatim>\<open>%w\<close> (the format string is kept, its arguments are not rendered);
  \<^item> \<open>DBError\<close> is a failure reported by the database for a statement, \<open>ConstraintViolation\<close>
    the failure of an insert that breaks a uniqueness constraint;
  \<^item> \<open>ExtError msg\<close> is a failure of an external collaborator;
  \<^item> \<open>Panic msg\<close> stands for a Go panic (a nil dereference); it unwinds through every caller.
\<close>

datatype err =
    ErrRecordNotFound
  | IpldErrNotFound
  | ErrSyntax
  | ErrRange
  | HTTPError nat string
  | Errorf string
  | Wrap string err
  | DBError
  | ConstraintViolation
  | ExtError string
  | Panic string

text \<open>\<^verbatim>\<open>errors.Is(err, gorm.ErrRecordNotFound)\<close>: follows the \<^verbatim>\<open>%w\<close> chain.\<close>

fun isNotFound :: "err \<Rightarrow> bool" where
  "isNotFound ErrRecordNotFound = True"
| "isNotFound (Wrap m e) = isNotFound e"
| "isNotFound e = False"

text \<open>\<^verbatim>\<open>ipld.IsNotFound(err)\<close>: follows the \<^verbatim>\<open>%w\<close> chain as well.\<close>

fun ipld_IsNotFound :: "err \<Rightarrow> bool" where
  "ipld_IsNotFound IpldErrNotFound = True"
| "ipld_IsNotFound (Wrap m e) = ipld_IsNotFound e"
| "ipld_IsNotFound e = False"

text \<open>
  The HTTP status a handler's error carries: only \<^verbatim>\<open>echo.HTTPError\<close> has one. Every other
  error reaches the framework without a status of its own.
\<close>

fun http_code :: "err \<Rightarrow> nat option" where
  "http_code (HTTPError c m) = Some c"
| "http_code e = None"

text \<open>
  A panic is not an error value in Go: no \<^verbatim>\<open>if err != nil\<close> sees it. \<open>wrap\<close> is the
  \<^verbatim>\<open>fmt.Errorf("...: %w", err)\<close> of a caller, which a panic passes through unchanged.
\<close>

fun is_panic :: "err \<Rightarrow> bool" where
  "is_panic (Panic m) = True"
| "is_panic e = False"

definition wrap :: "string \<Rightarrow> err \<Rightarrow> err" where
  "wrap m e = (if is_panic e then e else Wrap m e)"

text \<open>A Go slice is \<^verbatim>\<open>nil\<close> (\<open>None\<close>) or holds elements; \<^verbatim>\<open>len(nil) = 0\<close>.\<close>

type_synonym 'a slice = "'a list option"

fun go_len :: "'a slice \<Rightarrow> nat" where
  "go_len None = 0"
| "go_len (Some xs) = length xs"

fun go_append :: "'a slice \<Rightarrow> 'a \<Rightarrow> 'a slice" where
  "go_append None x = Some [x]"
| "go_append (Some xs) x = Some (xs @ [x])"

subsection \<open>strconv\<close>

text \<open>
  \<^verbatim>\<open>strconv.ParseInt(s, 10, 64)\<close> and \<^verbatim>\<open>strconv.FormatInt(i, 10)\<close> of the Go standard
  library, for base 10 and 64 bits. \<open>ParseUint_loop\<close> is the digit loop of
  \<^verbatim>\<open>ParseUint\<close>: a byte that is no decimal digit is a syntax error, a value beyond
  \<open>2^64 - 1\<close> a range error.
\<close>

definition is_digit :: "char \<Rightarrow> bool" where
  "is_digit c = ((48::nat) \<le> of_char c \<and> of_char c \<le> (57::nat))"

definition digit_val :: "char \<Rightarrow> nat" where
  "digit_val c = of_char c - 48"

fun ParseUint_loop :: "string \<Rightarrow> nat \<Rightarrow> err + nat" where
  "ParseUint_loop [] n = Inr n"
| "ParseUint_loop (c # cs) n =
     (if \<not> is_digit c then Inl ErrSyntax
      else if n \<ge> 1844674407370955162 then Inl ErrRange
      else (let n1 = n * 10 + digit_val c in
            if n1 > 18446744073709551615 then Inl ErrRange
            else ParseUint_loop cs n1))"

definition ParseUint :: "string \<Rightarrow> err + nat" where
  "ParseUint s = (if s = [] then Inl ErrSyntax else ParseUint_loop s 0)"

definition ParseInt :: "string \<Rightarrow> err + int" where
  "ParseInt s =
     (if s = [] then Inl ErrSyntax
      else (let neg = (hd s = CHR ''-'');
                s1 = (if hd s = CHR ''+'' \<or> hd s = CHR ''-'' then tl s else s)
            in case ParseUint s1 of
                 Inl e \<Rightarrow> Inl e
               | Inr un \<Rightarrow>
                   if \<not> neg \<and> un \<ge> 9223372036854775808 then Inl ErrRange
                   else if neg \<and> un > 9223372036854775808 then Inl ErrRange
                   else Inr (if neg then - int un else int un)))"

definition digit_char :: "nat \<Rightarrow> char" where
  "digit_char d = ''0123456789'' ! d"

fun digits :: "nat \<Rightarrow> string" where
  "digits n = (if n < 10 then [digit_char n]
               else digits (n div 10) @ [digit_char (n mod 10)])"

definition FormatInt :: "int \<Rightarrow> string" where
  "FormatInt i = (if i < 0 then CHR ''-'' # digits (nat (- i)) else digits (nat i))"

section \<open>The XRPC handlers of the BGS\<close>

text \<open>
  The type \<^verbatim>\<open>User\<close> of package \<^verbatim>\<open>bgs\<close> is declared outside \<^verbatim>\<open>src/\<close>; the record has the
  fields the handlers read. \<^verbatim>\<open>ID\<close> is a \<^verbatim>\<open>models.Uid\<close>, an unsigned 64-bit integer that the
  handlers only compare and print.
\<close>

record User =
  user_ID :: nat
  user_Did :: string
  user_Tombstoned :: bool
  user_TakenDown :: bool

record SyncListRepos_Repo =
  repo_Did :: string
  repo_Head :: string

record SyncListRepos_Output =
  out_Cursor :: "string option"
  out_Repos :: "SyncListRepos_Repo list"

text \<open>
  What the handlers reach through the receiver \<^verbatim>\<open>s *BGS\<close>. The table of users is data; the
  other fields are the collaborators, each a function from its arguments to what it returns:
  \<^item> \<open>bgs_query_err\<close>: the error of the \<^verbatim>\<open>Find\<close> of \<^verbatim>\<open>listRepos\<close>, if the database reports one;
  \<^item> \<open>bgs_GetRepoRoot\<close>, \<open>bgs_GetRecord\<close>: the repository manager;
  \<^item> \<open>bgs_lookupUserByDid\<close>, \<open>bgs_domainIsBanned\<close>: methods of \<^verbatim>\<open>BGS\<close> declared outside \<^verbatim>\<open>src/\<close>;
  \<^item> \<open>bgs_cid_Decode\<close>, \<open>bgs_MarshalCBOR\<close>, \<open>bgs_NormalizeHostname\<close>,
    \<open>bgs_ServerDescribeServer\<close>, \<open>bgs_SubscribeToPds\<close>: libraries and the network.
\<close>

record BGS =
  bgs_users :: "User list"
  bgs_query_err :: "err option"
  bgs_ssl :: bool
  bgs_GetRepoRoot :: "nat \<Rightarrow> err + string"
  bgs_lookupUserByDid :: "string \<Rightarrow> err + User"
  bgs_cid_Decode :: "string \<Rightarrow> err + string"
  bgs_GetRecord :: "nat \<Rightarrow> string \<Rightarrow> string \<Rightarrow> string \<Rightarrow> err + string"
  bgs_MarshalCBOR :: "string \<Rightarrow> err + string"
  bgs_NormalizeHostname :: "string \<Rightarrow> err + string"
  bgs_domainIsBanned :: "string \<Rightarrow> bool \<times> err option"
  bgs_ServerDescribeServer :: "string \<Rightarrow> err option"
  bgs_SubscribeToPds :: "string \<Rightarrow> bool \<Rightarrow> err option"

subsection \<open>listRepos\<close>

text \<open>
  The query \<^verbatim>\<open>Where("id > ? AND NOT tombstoned AND NOT taken_down", c).Order("id").Limit(limit)\<close>.
  gorm writes \<^verbatim>\<open>LIMIT n\<close> for \<open>n \<ge> 0\<close> and no limit for a negative \<open>n\<close>. The cursor \<open>c\<close> is
  an \<^verbatim>\<open>int64\<close>.
\<close>

definition sql_limit :: "int \<Rightarrow> 'a list \<Rightarrow> 'a list" where
  "sql_limit n xs = (if n < 0 then xs else take (nat n) xs)"

definition listRepos_query :: "User list \<Rightarrow> 64 word \<Rightarrow> int \<Rightarrow> User list" where
  "listRepos_query tbl c limit =
     sql_limit limit
       (sort_key user_ID
          (filter (\<lambda>u. int (user_ID u) > sint c \<and> \<not> user_Tombstoned u \<and> \<not> user_TakenDown u) tbl))"

text \<open>The loop \<^verbatim>\<open>for i := range users\<close>: the first failing \<^verbatim>\<open>GetRepoRoot\<close> ends the call.\<close>

fun listRepos_loop :: "(nat \<Rightarrow> err + string) \<Rightarrow> User list \<Rightarrow> SyncListRepos_Repo list
    \<Rightarrow> err + SyncListRepos_Repo list" where
  "listRepos_loop g [] acc = Inr acc"
| "listRepos_loop g (u # us) acc =
     (case g (user_ID u) of
        Inl e \<Rightarrow> Inl (Wrap ''failed to get repo root for (%s): %w'' e)
      | Inr root \<Rightarrow> listRepos_loop g us (acc @ [\<lparr>repo_Did = user_Did u, repo_Head = root\<rparr>]))"

definition empty_output :: SyncListRepos_Output where
  "empty_output = \<lparr>out_Cursor = None, out_Repos = []\<rparr>"

definition handleComAtprotoSyncListRepos :: "BGS \<Rightarrow> string \<Rightarrow> int \<Rightarrow> err + SyncListRepos_Output" where
  "handleComAtprotoSyncListRepos s cursor limit =
     (case (if cursor \<noteq> [] then ParseInt cursor else Inr 0) of
        Inl e \<Rightarrow> Inl (Wrap ''invalid cursor: %w'' e)
      | Inr c0 \<Rightarrow>
          (let c = (word_of_int c0 :: 64 word) in
           case bgs_query_err s of
             Some e \<Rightarrow>
               if e = ErrRecordNotFound then Inr empty_output
               else Inl (Wrap ''failed to get users: %w'' e)
           | None \<Rightarrow>
               (let users = listRepos_query (bgs_users s) c limit in
                if length users = 0 then Inr empty_output
                else (case listRepos_loop (bgs_GetRepoRoot s) users [] of
                        Inl e \<Rightarrow> Inl e
                      | Inr repos \<Rightarrow>
                          (let c' = c + word_of_nat (length users) in
                           Inr \<lparr>out_Cursor = Some (FormatInt (sint c')), out_Repos = repos\<rparr>)))))"

subsection \<open>requestCrawl\<close>

definition handleComAtprotoSyncRequestCrawl :: "BGS \<Rightarrow> string \<Rightarrow> err option" where
  "handleComAtprotoSyncRequestCrawl s host =
     (if host = [] then Some (Errorf ''must pass valid hostname'')
      else if prefix ''https://'' host \<or> prefix ''http://'' host
        then Some (HTTPError 400 ''must pass domain without protocol scheme'')
      else (case bgs_NormalizeHostname s host of
              Inl e \<Rightarrow> Some e
            | Inr norm \<Rightarrow>
                if fst (bgs_domainIsBanned s host) then Some (HTTPError 401 ''domain is banned'')
                else (let chost = (if \<not> bgs_ssl s then ''http://'' @ host else ''https://'' @ host) in
                      case bgs_ServerDescribeServer s chost of
                        Some e \<Rightarrow> Some (HTTPError 401 ''given host failed to respond to ping: %s'')
                      | None \<Rightarrow> bgs_SubscribeToPds s norm True)))"

subsection \<open>getRecord\<close>

text \<open>\<^verbatim>\<open>cid.Undef\<close> is the empty CID; CIDs are kept in their string form.\<close>

definition cid_Undef :: string where
  "cid_Undef = []"

definition handleComAtprotoSyncGetRecord :: "BGS \<Rightarrow> string \<Rightarrow> string \<Rightarrow> string \<Rightarrow> string \<Rightarrow> err + string" where
  "handleComAtprotoSyncGetRecord s collection commit did rkey =
     (case bgs_lookupUserByDid s did of
        Inl e \<Rightarrow>
          if isNotFound e then Inl (HTTPError 404 ''user not found'')
          else Inl (HTTPError 500 ''failed to lookup user'')
      | Inr u \<Rightarrow>
          if user_Tombstoned u then Inl (Errorf ''account was deleted'')
          else if user_TakenDown u then Inl (Errorf ''account was taken down'')
          else (case (if commit \<noteq> [] then bgs_cid_Decode s commit else Inr cid_Undef) of
                  Inl e \<Rightarrow> Inl (Wrap ''failed to decode commit cid: %w'' e)
                | Inr reqCid \<Rightarrow>
                    (case bgs_GetRecord s (user_ID u) collection rkey reqCid of
                       Inl e \<Rightarrow> Inl (Wrap ''failed to get record: %w'' e)
                     | Inr record \<Rightarrow>
                         (case bgs_MarshalCBOR s record of
                            Inl e \<Rightarrow> Inl (Wrap ''failed to marshal record: %w'' e)
                          | Inr buf \<Rightarrow> Inr buf))))"

section \<open>The indexer: data\<close>

subsection \<open>Rows\<close>

text \<open>
  Package \<^verbatim>\<open>models\<close> is declared outside \<^verbatim>\<open>src/\<close>. Each record below has the fields the
  indexer reads or writes. Every row has the primary key \<^verbatim>\<open>ID\<close> of \<^verbatim>\<open>gorm.Model\<close>, assigned by
  the database on insert; an actor also has its \<^verbatim>\<open>Uid\<close>, which is another column. Identifiers
  are unsigned integers that are only compared; \<^verbatim>\<open>UpCount\<close> is a signed counter.

  The unique indexes of the tables are the conflict targets that the source names in its
  upserts, (rkey, author) of a post and the uid of an actor, and, for an actor, the DID and
  the handle. The source names none for a VoteRecord, a RepostRecord or a FollowRecord: their
  inserts add a row whatever the table holds.
\<close>

record ActorInfo =
  ai_ID :: nat
  ai_Uid :: nat
  ai_Handle :: "string option"
  ai_Did :: string
  ai_DisplayName :: string
  ai_Type :: string
  ai_PDS :: nat

record FeedPost =
  fp_ID :: nat
  fp_Author :: nat
  fp_Rkey :: string
  fp_Cid :: string
  fp_ReplyTo :: nat
  fp_Missing :: bool
  fp_Deleted :: bool
  fp_UpCount :: int

record VoteRecord =
  vr_ID :: nat
  vr_Voter :: nat
  vr_Post :: nat
  vr_Created :: string
  vr_Rkey :: string
  vr_Cid :: string

record RepostRecord =
  rr_ID :: nat
  rr_RecCreated :: string
  rr_Post :: nat
  rr_Reposter :: nat
  rr_Author :: nat
  rr_RecCid :: string
  rr_Rkey :: string

record FollowRecord =
  fr_ID :: nat
  fr_Follower :: nat
  fr_Target :: nat
  fr_Rkey :: string
  fr_Cid :: string

record PDS =
  pds_ID :: nat
  pds_Host :: string

text \<open>The zero values that \<^verbatim>\<open>var x T\<close> declares and that \<^verbatim>\<open>Find\<close> leaves when no row matches.\<close>

definition zero_ActorInfo :: ActorInfo where
  "zero_ActorInfo = \<lparr>ai_ID = 0, ai_Uid = 0, ai_Handle = None, ai_Did = [], ai_DisplayName = [],
     ai_Type = [], ai_PDS = 0\<rparr>"

definition zero_FeedPost :: FeedPost where
  "zero_FeedPost = \<lparr>fp_ID = 0, fp_Author = 0, fp_Rkey = [], fp_Cid = [], fp_ReplyTo = 0,
     fp_Missing = False, fp_Deleted = False, fp_UpCount = 0\<rparr>"

definition zero_VoteRecord :: VoteRecord where
  "zero_VoteRecord = \<lparr>vr_ID = 0, vr_Voter = 0, vr_Post = 0, vr_Created = [], vr_Rkey = [], vr_Cid = []\<rparr>"

subsection \<open>Records, operations and events\<close>

text \<open>
  The decoded record of an operation is one of the \<^verbatim>\<open>bsky\<close> types (declared outside
  \<^verbatim>\<open>src/\<close>); the handlers switch on its dynamic type. A pointer field (\<^verbatim>\<open>Subject\<close>,
  \<^verbatim>\<open>Reply\<close>, \<^verbatim>\<open>Parent\<close>, \<^verbatim>\<open>Root\<close>) is an option of the URI it holds, \<open>None\<close> for \<^verbatim>\<open>nil\<close>.
\<close>

record Entity =
  ent_Type :: string
  ent_Value :: string

record ReplyRef =
  reply_Parent :: "string option"
  reply_Root :: "string option"

datatype bsky_record =
    FeedPost_rec "Entity list" "ReplyRef option"
  | FeedRepost_rec "string option" string
  | FeedLike_rec "string option" string
  | GraphFollow_rec string
  | GraphBlock_rec string
  | ActorProfile_rec
  | Other_rec

record RepoActorInfo =
  rai_Did :: string
  rai_Handle :: string
  rai_DisplayName :: string
  rai_Type :: string

text \<open>
  \<^verbatim>\<open>repomgr.RepoOp\<close> and \<^verbatim>\<open>repomgr.RepoEvent\<close>. \<^verbatim>\<open>Kind\<close> is a string type; the names of its
  constants are the source's, their values the kinds of the specification. CIDs are kept
  in their string form, \<^verbatim>\<open>RecCid\<close> and \<^verbatim>\<open>OldRoot\<close> are pointers.
\<close>

definition EvtKindCreateRecord :: string where
  "EvtKindCreateRecord = ''create''"

definition EvtKindUpdateRecord :: string where
  "EvtKindUpdateRecord = ''update''"

definition EvtKindDeleteRecord :: string where
  "EvtKindDeleteRecord = ''delete''"

record RepoOp =
  op_Kind :: string
  op_Collection :: string
  op_Rkey :: string
  op_RecCid :: "string option"
  op_Record :: bsky_record
  op_ActorInfo :: "RepoActorInfo option"

record RepoEvent =
  ev_User :: nat
  ev_PDS :: nat
  ev_OldRoot :: "string option"
  ev_NewRoot :: string
  ev_Rev :: string
  ev_Since :: "string option"
  ev_Ops :: "RepoOp list"
  ev_RepoSlice :: "8 word slice"

text \<open>The outbound envelope, \<^verbatim>\<open>comatproto.SyncSubscribeRepos_Commit\<close> in an \<^verbatim>\<open>XRPCStreamEvent\<close>.\<close>

record SyncSubscribeRepos_RepoOp =
  ro_Path :: string
  ro_Action :: string
  ro_Cid :: "string option"

record SyncSubscribeRepos_Commit =
  c_Repo :: string
  c_Prev :: "string option"
  c_Blocks :: "8 word slice"
  c_Rev :: string
  c_Since :: "string option"
  c_Commit :: string
  c_Time :: string
  c_Ops :: "SyncSubscribeRepos_RepoOp slice"
  c_TooBig :: bool

record XRPCStreamEvent =
  xe_RepoCommit :: SyncSubscribeRepos_Commit
  xe_PrivUid :: nat

record ParsedUri =
  pu_Did :: string
  pu_Collection :: string
  pu_Rkey :: string

text \<open>A crawl job (\<^verbatim>\<open>crawlWork\<close>, declared outside \<^verbatim>\<open>src/\<close>): the actor, the flag, the buffer.\<close>

record crawlWork =
  job_act :: ActorInfo
  job_initScrape :: bool
  job_catchup :: "SyncSubscribeRepos_Commit list"

subsection \<open>State and environment\<close>

text \<open>
  What the collaborators were asked to do is kept as traces: the notifications handed to the
  notification manager, the actors handed to the crawler, the events handed to the
  broadcaster, and the calls to the repository manager and to the PDS.
\<close>

datatype notif =
    AddRepost nat nat nat
  | AddUpVote nat nat nat nat
  | AddFollow nat nat nat
  | AddReplyTo nat nat FeedPost
  | AddMention nat nat nat

datatype call =
    CallHandleExternalUserEvent nat nat string "string option" string "8 word slice"
      "SyncSubscribeRepos_RepoOp slice"
  | CallSyncGetRepo string string
  | CallImportNewRepo nat string "8 word list" "string option"

text \<open>
  The state: the tables of the relational store, in primary-key order, with the next key of
  each; the traces; and \<open>tick\<close>, the number of fallible steps taken so far (database
  statements, notifications, crawler admissions, broadcasts).
\<close>

record ix_state =
  actors :: "ActorInfo list"
  posts :: "FeedPost list"
  votes :: "VoteRecord list"
  reposts :: "RepostRecord list"
  follows :: "FollowRecord list"
  pdss :: "PDS list"
  next_actor_id :: nat
  next_post_id :: nat
  next_vote_id :: nat
  next_repost_id :: nat
  next_follow_id :: nat
  tick :: nat
  notifs :: "notif list"
  crawled :: "ActorInfo list"
  emitted :: "XRPCStreamEvent list"
  calls :: "call list"

text \<open>
  The environment of a call:
  \<^item> \<open>fails n\<close>: the \<open>n\<close>-th fallible step fails (the database, the notification manager, the
    crawler or the broadcaster returns an error there);
  \<^item> \<open>doAggregations\<close>, \<open>has_Crawler\<close> (\<^verbatim>\<open>ix.Crawler != nil\<close>): fields of the \<^verbatim>\<open>Indexer\<close>;
  \<^item> \<open>ParseAtUri\<close>: \<^verbatim>\<open>util.ParseAtUri\<close>, declared outside \<^verbatim>\<open>src/\<close>;
  \<^item> \<open>CreateExternalUser\<close>: the injected hook, which resolves a DID to a new actor;
  \<^item> \<open>now\<close>: the formatted \<^verbatim>\<open>time.Now()\<close>;
  \<^item> \<open>GetRepoRev\<close>, \<open>HandleExternalUserEvent\<close>, \<open>ImportNewRepo\<close>: the repository manager, and
    \<open>SyncGetRepo\<close>: the PDS. \<^verbatim>\<open>GetRepoRev\<close> returns a revision and an error, as in Go.
    \<open>HandleExternalUserEvent\<close> gets the position of the event in the buffer,
    \<open>SyncGetRepo\<close> and \<open>ImportNewRepo\<close> the number of the attempt, so that two calls with the
    same arguments may differ in their outcome.
\<close>

record env =
  fails :: "nat \<Rightarrow> bool"
  doAggregations :: bool
  has_Crawler :: bool
  ParseAtUri :: "string \<Rightarrow> err + ParsedUri"
  CreateExternalUser :: "string \<Rightarrow> err + ActorInfo"
  now :: string
  GetRepoRev :: "nat \<Rightarrow> string \<times> err option"
  HandleExternalUserEvent :: "nat \<Rightarrow> SyncSubscribeRepos_Commit \<Rightarrow> err option"
  SyncGetRepo :: "nat \<Rightarrow> string \<Rightarrow> string \<Rightarrow> err + 8 word list"
  ImportNewRepo :: "nat \<Rightarrow> nat \<Rightarrow> string \<Rightarrow> 8 word list \<Rightarrow> string option \<Rightarrow> err option"

definition tickup :: "ix_state \<Rightarrow> ix_state" where
  "tickup s = s\<lparr>tick := Suc (tick s)\<rparr>"

definition failing :: "env \<Rightarrow> ix_state \<Rightarrow> bool" where
  "failing e s = fails e (tick s)"

text \<open>
  \<^verbatim>\<open>db.Transaction(f)\<close>: \<^verbatim>\<open>BEGIN\<close>, the body, \<^verbatim>\<open>COMMIT\<close>. When the body returns an error or
  the commit fails, the tables go back to what they were; the traces and the step count do
  not.
\<close>

definition rollback :: "ix_state \<Rightarrow> ix_state \<Rightarrow> ix_state" where
  "rollback s0 s1 = s1\<lparr>actors := actors s0, posts := posts s0, votes := votes s0,
     reposts := reposts s0, follows := follows s0, pdss := pdss s0,
     next_actor_id := next_actor_id s0, next_post_id := next_post_id s0,
     next_vote_id := next_vote_id s0, next_repost_id := next_repost_id s0,
     next_follow_id := next_follow_id s0\<rparr>"

definition Transaction :: "env \<Rightarrow> ix_state \<Rightarrow> (ix_state \<Rightarrow> err option \<times> ix_state)
    \<Rightarrow> err option \<times> ix_state" where
  "Transaction e s f =
     (if failing e s then (Some DBError, tickup s)
      else (case f (tickup s) of
              (Some x, s1) \<Rightarrow> (Some x, rollback s s1)
            | (None, s1) \<Rightarrow>
                if failing e s1 then (Some DBError, rollback s (tickup s1))
                else (None, tickup s1)))"

section \<open>The indexer: operations\<close>

subsection \<open>Collaborators\<close>

text \<open>A call to the notification manager: it fails, or the notification is recorded.\<close>

definition notify :: "env \<Rightarrow> ix_state \<Rightarrow> notif \<Rightarrow> err option \<times> ix_state" where
  "notify e s n =
     (if failing e s then (Some (ExtError ''notifman''), tickup s)
      else (None, (tickup s)\<lparr>notifs := notifs s @ [n]\<rparr>))"

text \<open>\<^verbatim>\<open>ix.events.AddEvent\<close>: the event is handed to the broadcaster, which may fail.\<close>

definition AddEvent :: "env \<Rightarrow> ix_state \<Rightarrow> XRPCStreamEvent \<Rightarrow> err option \<times> ix_state" where
  "AddEvent e s xe =
     (if failing e s then (Some (ExtError ''events''), (tickup s)\<lparr>emitted := emitted s @ [xe]\<rparr>)
      else (None, (tickup s)\<lparr>emitted := emitted s @ [xe]\<rparr>))"

subsection \<open>User directory\<close>

definition DidForUser :: "env \<Rightarrow> ix_state \<Rightarrow> nat \<Rightarrow> (err + string) \<times> ix_state" where
  "DidForUser e s uid =
     (if failing e s then (Inl DBError, tickup s)
      else (case filter (\<lambda>a. ai_Uid a = uid) (actors s) of
              [] \<Rightarrow> (Inl ErrRecordNotFound, tickup s)
            | a # as \<Rightarrow> (Inr (ai_Did a), tickup s)))"

definition LookupUser :: "env \<Rightarrow> ix_state \<Rightarrow> nat \<Rightarrow> (err + ActorInfo) \<times> ix_state" where
  "LookupUser e s uid =
     (if failing e s then (Inl DBError, tickup s)
      else (case filter (\<lambda>a. ai_Uid a = uid) (actors s) of
              [] \<Rightarrow> (Inl ErrRecordNotFound, tickup s)
            | a # as \<Rightarrow> (Inr a, tickup s)))"

definition LookupUserByDid :: "env \<Rightarrow> ix_state \<Rightarrow> string \<Rightarrow> (err + ActorInfo) \<times> ix_state" where
  "LookupUserByDid e s did =
     (if failing e s then (Inl DBError, tickup s)
      else (let ai = (case filter (\<lambda>a. ai_Did a = did) (actors s) of
                        [] \<Rightarrow> zero_ActorInfo
                      | a # as \<Rightarrow> a)
            in if ai_ID ai = 0 then (Inl ErrRecordNotFound, tickup s)
               else (Inr ai, tickup s)))"

definition addUserToCrawler :: "env \<Rightarrow> ix_state \<Rightarrow> ActorInfo \<Rightarrow> err option \<times> ix_state" where
  "addUserToCrawler e s ai =
     (if \<not> has_Crawler e then (None, s)
      else if failing e s then (Some (ExtError ''crawler''), tickup s)
      else (None, (tickup s)\<lparr>crawled := crawled s @ [ai]\<rparr>))"

text \<open>
  Modelled from the spec: the body of the hook \<^verbatim>\<open>CreateExternalUser\<close> is injected at
  construction and is not in \<^verbatim>\<open>src/\<close>. The specification has it synthesize the actor
  (``actor X created via CreateExternalUser''), so the row it returns is added to the actor
  table under a fresh primary key.
\<close>

definition createMissingUserRecord :: "env \<Rightarrow> ix_state \<Rightarrow> string \<Rightarrow> (err + ActorInfo) \<times> ix_state" where
  "createMissingUserRecord e s did =
     (case CreateExternalUser e did of
        Inl x \<Rightarrow> (Inl x, s)
      | Inr ai0 \<Rightarrow>
          (let ai = ai0\<lparr>ai_ID := next_actor_id s\<rparr>;
               s1 = s\<lparr>actors := actors s @ [ai], next_actor_id := Suc (next_actor_id s)\<rparr>
           in case addUserToCrawler e s1 ai of
                (Some x, s2) \<Rightarrow> (Inl (wrap ''failed to add unknown user to crawler: %w'' x), s2)
              | (None, s2) \<Rightarrow> (Inr ai, s2)))"

definition GetUserOrMissing :: "env \<Rightarrow> ix_state \<Rightarrow> string \<Rightarrow> (err + ActorInfo) \<times> ix_state" where
  "GetUserOrMissing e s did =
     (case LookupUserByDid e s did of
        (Inr ai, s1) \<Rightarrow> (Inr ai, s1)
      | (Inl x, s1) \<Rightarrow>
          if \<not> isNotFound x then (Inl x, s1)
          else createMissingUserRecord e s1 did)"

subsection \<open>Posts\<close>

text \<open>
  The rows of \<^verbatim>\<open>"rkey = ? AND author = (SELECT id FROM actor_infos WHERE did = ?)"\<close>: the
  subquery selects the primary key of the actor with that DID.
\<close>

definition posts_by_uri :: "ix_state \<Rightarrow> ParsedUri \<Rightarrow> FeedPost list" where
  "posts_by_uri s puri =
     (case filter (\<lambda>a. ai_Did a = pu_Did puri) (actors s) of
        [] \<Rightarrow> []
      | a # as \<Rightarrow> filter (\<lambda>p. fp_Rkey p = pu_Rkey puri \<and> fp_Author p = ai_ID a) (posts s))"

definition GetPost :: "env \<Rightarrow> ix_state \<Rightarrow> string \<Rightarrow> (err + FeedPost) \<times> ix_state" where
  "GetPost e s uri =
     (case ParseAtUri e uri of
        Inl x \<Rightarrow> (Inl x, s)
      | Inr puri \<Rightarrow>
          if failing e s then (Inl DBError, tickup s)
          else (case posts_by_uri s puri of
                  [] \<Rightarrow> (Inl ErrRecordNotFound, tickup s)
                | p # ps \<Rightarrow> (Inr p, tickup s)))"

text \<open>
  \<^verbatim>\<open>db.Create(&fp)\<close>: the insert fails when the database fails or when a row with the same
  (author, rkey) exists; otherwise the row gets the next primary key.
\<close>

definition same_post_key :: "FeedPost \<Rightarrow> FeedPost \<Rightarrow> bool" where
  "same_post_key p q = (fp_Rkey p = fp_Rkey q \<and> fp_Author p = fp_Author q)"

definition Create_post :: "env \<Rightarrow> ix_state \<Rightarrow> FeedPost \<Rightarrow> (err + FeedPost) \<times> ix_state" where
  "Create_post e s fp =
     (if failing e s then (Inl DBError, tickup s)
      else if list_ex (same_post_key fp) (posts s) then (Inl ConstraintViolation, tickup s)
      else (let row = fp\<lparr>fp_ID := next_post_id s\<rparr>
            in (Inr row, (tickup s)\<lparr>posts := posts s @ [row],
                                    next_post_id := Suc (next_post_id s)\<rparr>)))"

text \<open>
  \<^verbatim>\<open>Clauses(clause.OnConflict{Columns: rkey, author; UpdateAll: true}).Create(&fp)\<close>: a row with
  the same (rkey, author) keeps its primary key and takes every other column from \<open>fp\<close>;
  without such a row this is an insert.
\<close>

definition Upsert_post :: "env \<Rightarrow> ix_state \<Rightarrow> FeedPost \<Rightarrow> (err + FeedPost) \<times> ix_state" where
  "Upsert_post e s fp =
     (if failing e s then (Inl DBError, tickup s)
      else (case filter (same_post_key fp) (posts s) of
              [] \<Rightarrow>
                (let row = fp\<lparr>fp_ID := next_post_id s\<rparr>
                 in (Inr row, (tickup s)\<lparr>posts := posts s @ [row],
                                         next_post_id := Suc (next_post_id s)\<rparr>))
            | old # olds \<Rightarrow>
                (Inr (fp\<lparr>fp_ID := fp_ID old\<rparr>),
                 (tickup s)\<lparr>posts := map (\<lambda>p. if same_post_key fp p then fp\<lparr>fp_ID := fp_ID p\<rparr> else p)
                                         (posts s)\<rparr>)))"

text \<open>
  \<^verbatim>\<open>db.FirstOrCreate(&fp, models.FeedPost{Author, Rkey, Missing: true})\<close>: gorm builds the
  condition from the non-zero fields of the struct, returns the first row that meets it and
  inserts the struct when there is none.
\<close>

definition FirstOrCreate_missing :: "env \<Rightarrow> ix_state \<Rightarrow> nat \<Rightarrow> string \<Rightarrow> (err + FeedPost) \<times> ix_state" where
  "FirstOrCreate_missing e s author rkey =
     (if failing e s then (Inl DBError, tickup s)
      else (case filter (\<lambda>p. (author = 0 \<or> fp_Author p = author) \<and> (rkey = [] \<or> fp_Rkey p = rkey)
                              \<and> fp_Missing p) (posts s) of
              p # ps \<Rightarrow> (Inr p, tickup s)
            | [] \<Rightarrow> Create_post e (tickup s)
                      (zero_FeedPost\<lparr>fp_Author := author, fp_Rkey := rkey, fp_Missing := True\<rparr>)))"

definition createMissingPostRecord :: "env \<Rightarrow> ix_state \<Rightarrow> ParsedUri \<Rightarrow> (err + FeedPost) \<times> ix_state" where
  "createMissingPostRecord e s puri =
     (case GetUserOrMissing e s (pu_Did puri) of
        (Inl x, s1) \<Rightarrow> (Inl x, s1)
      | (Inr ai, s1) \<Rightarrow> FirstOrCreate_missing e s1 (ai_Uid ai) (pu_Rkey puri))"

definition GetPostOrMissing :: "env \<Rightarrow> ix_state \<Rightarrow> string \<Rightarrow> (err + FeedPost) \<times> ix_state" where
  "GetPostOrMissing e s uri =
     (case ParseAtUri e uri of
        Inl x \<Rightarrow> (Inl x, s)
      | Inr puri \<Rightarrow>
          if failing e s then (Inl DBError, tickup s)
          else (let post = (case posts_by_uri s puri of [] \<Rightarrow> zero_FeedPost | p # ps \<Rightarrow> p)
                in if fp_ID post = 0 then createMissingPostRecord e (tickup s) puri
                   else (Inr post, tickup s)))"

subsection \<open>Likes\<close>

text \<open>
  \<^verbatim>\<open>db.Create(&vr)\<close>: the row gets the next primary key, whatever the table holds (a second
  like with the same voter and rkey is a second row). Then the update
  \<^verbatim>\<open>up_count = up_count + d\<close> of the posts with a given primary key.
\<close>

definition Create_vote :: "env \<Rightarrow> ix_state \<Rightarrow> VoteRecord \<Rightarrow> (err + VoteRecord) \<times> ix_state" where
  "Create_vote e s vr =
     (if failing e s then (Inl DBError, tickup s)
      else (let row = vr\<lparr>vr_ID := next_vote_id s\<rparr>
            in (Inr row, (tickup s)\<lparr>votes := votes s @ [row],
                                    next_vote_id := Suc (next_vote_id s)\<rparr>)))"

definition Update_up_count :: "env \<Rightarrow> ix_state \<Rightarrow> nat \<Rightarrow> int \<Rightarrow> err option \<times> ix_state" where
  "Update_up_count e s pid d =
     (if failing e s then (Some DBError, tickup s)
      else (None, (tickup s)\<lparr>posts := map (\<lambda>p. if fp_ID p = pid
                                                then p\<lparr>fp_UpCount := fp_UpCount p + d\<rparr> else p)
                                        (posts s)\<rparr>))"

definition Delete_vote :: "env \<Rightarrow> ix_state \<Rightarrow> nat \<Rightarrow> err option \<times> ix_state" where
  "Delete_vote e s vid =
     (if failing e s then (Some DBError, tickup s)
      else (None, (tickup s)\<lparr>votes := filter (\<lambda>v. vr_ID v \<noteq> vid) (votes s)\<rparr>))"

definition addNewVoteNotification :: "env \<Rightarrow> ix_state \<Rightarrow> nat \<Rightarrow> VoteRecord \<Rightarrow> err option \<times> ix_state" where
  "addNewVoteNotification e s postauthor vr =
     notify e s (AddUpVote (vr_Voter vr) (vr_Post vr) (vr_ID vr) postauthor)"

definition handleRecordCreateFeedLike :: "env \<Rightarrow> ix_state \<Rightarrow> string option \<Rightarrow> string \<Rightarrow> RepoEvent
    \<Rightarrow> RepoOp \<Rightarrow> err option \<times> ix_state" where
  "handleRecordCreateFeedLike e s subject createdAt evt op =
     (case subject of
        None \<Rightarrow> (Some (Panic ''rec.Subject''), s)
      | Some uri \<Rightarrow>
     (case GetPostOrMissing e s uri of
        (Inl x, s1) \<Rightarrow> (Some x, s1)
      | (Inr post, s1) \<Rightarrow>
     (case LookupUser e s1 (fp_Author post) of
        (Inl x, s2) \<Rightarrow> (Some x, s2)
      | (Inr act, s2) \<Rightarrow>
     (case op_RecCid op of
        None \<Rightarrow> (Some (Panic ''op.RecCid''), s2)
      | Some rcid \<Rightarrow>
     (case Create_vote e s2 \<lparr>vr_ID = 0, vr_Voter = ev_User evt, vr_Post = fp_ID post,
                              vr_Created = createdAt, vr_Rkey = op_Rkey op, vr_Cid = rcid\<rparr> of
        (Inl x, s3) \<Rightarrow> (Some x, s3)
      | (Inr vr, s3) \<Rightarrow>
     (case Update_up_count e s3 (fp_ID post) 1 of
        (Some x, s4) \<Rightarrow> (Some x, s4)
      | (None, s4) \<Rightarrow> addNewVoteNotification e s4 (ai_Uid act) vr))))))"

text \<open>
  The \<^verbatim>\<open>Find\<close> of the delete leaves the zero VoteRecord when no row matches. The delete and
  the decrement run in one transaction. (\<^verbatim>\<open>RaiseErrorOnNotFound\<close> only concerns queries: a
  \<^verbatim>\<open>DELETE\<close> or \<^verbatim>\<open>UPDATE\<close> that touches no row is no error.)
\<close>

definition handleRecordDeleteFeedLike :: "env \<Rightarrow> ix_state \<Rightarrow> RepoEvent \<Rightarrow> RepoOp
    \<Rightarrow> err option \<times> ix_state" where
  "handleRecordDeleteFeedLike e s evt op =
     (if failing e s then (Some DBError, tickup s)
      else (let vr = (case filter (\<lambda>v. vr_Voter v = ev_User evt \<and> vr_Rkey v = op_Rkey op) (votes s) of
                        [] \<Rightarrow> zero_VoteRecord
                      | v # vs \<Rightarrow> v)
            in Transaction e (tickup s)
                 (\<lambda>tx. case Delete_vote e tx (vr_ID vr) of
                         (Some x, tx1) \<Rightarrow> (Some x, tx1)
                       | (None, tx1) \<Rightarrow> Update_up_count e tx1 (vr_Post vr) (- 1))))"

subsection \<open>Follows and reposts\<close>

text \<open>\<^verbatim>\<open>db.Create\<close> of a FollowRecord and of a RepostRecord: plain inserts as well.\<close>

definition Create_follow :: "env \<Rightarrow> ix_state \<Rightarrow> FollowRecord \<Rightarrow> (err + FollowRecord) \<times> ix_state" where
  "Create_follow e s fr =
     (if failing e s then (Inl DBError, tickup s)
      else (let row = fr\<lparr>fr_ID := next_follow_id s\<rparr>
            in (Inr row, (tickup s)\<lparr>follows := follows s @ [row],
                                    next_follow_id := Suc (next_follow_id s)\<rparr>)))"

definition Create_repost :: "env \<Rightarrow> ix_state \<Rightarrow> RepostRecord \<Rightarrow> (err + RepostRecord) \<times> ix_state" where
  "Create_repost e s rr =
     (if failing e s then (Inl DBError, tickup s)
      else (let row = rr\<lparr>rr_ID := next_repost_id s\<rparr>
            in (Inr row, (tickup s)\<lparr>reposts := reposts s @ [row],
                                    next_repost_id := Suc (next_repost_id s)\<rparr>)))"

definition handleRecordDeleteGraphFollow :: "env \<Rightarrow> ix_state \<Rightarrow> RepoEvent \<Rightarrow> RepoOp
    \<Rightarrow> err option \<times> ix_state" where
  "handleRecordDeleteGraphFollow e s evt op =
     (if failing e s then (Some DBError, tickup s)
      else (None, (tickup s)\<lparr>follows := filter (\<lambda>f. \<not> (fr_Follower f = ev_User evt \<and> fr_Rkey f = op_Rkey op))
                                          (follows s)\<rparr>))"

definition handleRecordCreateGraphFollow :: "env \<Rightarrow> ix_state \<Rightarrow> string \<Rightarrow> RepoEvent \<Rightarrow> RepoOp
    \<Rightarrow> err option \<times> ix_state" where
  "handleRecordCreateGraphFollow e s subject evt op =
     (case (case LookupUserByDid e s subject of
              (Inr subj, s1) \<Rightarrow> (Inr subj, s1)
            | (Inl x, s1) \<Rightarrow>
                if \<not> isNotFound x then (Inl (wrap ''failed to lookup user: %w'' x), s1)
                else (case createMissingUserRecord e s1 subject of
                        (Inl y, s2) \<Rightarrow> (Inl (wrap ''create external user: %w'' y), s2)
                      | (Inr nu, s2) \<Rightarrow> (Inr nu, s2))) of
        (Inl x, s1) \<Rightarrow> (Some x, s1)
      | (Inr subj, s1) \<Rightarrow>
     (case op_RecCid op of
        None \<Rightarrow> (Some (Panic ''op.RecCid''), s1)
      | Some rcid \<Rightarrow>
     (case Create_follow e s1 \<lparr>fr_ID = 0, fr_Follower = ev_User evt, fr_Target = ai_Uid subj,
                                fr_Rkey = op_Rkey op, fr_Cid = rcid\<rparr> of
        (Inl x, s2) \<Rightarrow> (Some x, s2)
      | (Inr fr, s2) \<Rightarrow> notify e s2 (AddFollow (fr_Follower fr) (fr_Target fr) (fr_ID fr)))))"

subsection \<open>Post creation\<close>

text \<open>The reply reference of a new post: both the parent and the root are resolved.\<close>

definition resolve_reply :: "env \<Rightarrow> ix_state \<Rightarrow> ReplyRef option \<Rightarrow> (err + nat) \<times> ix_state" where
  "resolve_reply e s reply =
     (case reply of
        None \<Rightarrow> (Inr 0, s)
      | Some r \<Rightarrow>
     (case reply_Parent r of
        None \<Rightarrow> (Inl (Panic ''rec.Reply.Parent''), s)
      | Some puri \<Rightarrow>
     (case GetPostOrMissing e s puri of
        (Inl x, s1) \<Rightarrow> (Inl x, s1)
      | (Inr replyto, s1) \<Rightarrow>
     (case reply_Root r of
        None \<Rightarrow> (Inl (Panic ''rec.Reply.Root''), s1)
      | Some ruri \<Rightarrow>
     (case GetPostOrMissing e s1 ruri of
        (Inl x, s2) \<Rightarrow> (Inl x, s2)
      | (Inr rootref, s2) \<Rightarrow> (Inr (fp_ID replyto), s2))))))"

fun resolve_mentions :: "env \<Rightarrow> ix_state \<Rightarrow> Entity list \<Rightarrow> ActorInfo list
    \<Rightarrow> (err + ActorInfo list) \<times> ix_state" where
  "resolve_mentions e s [] mentions = (Inr mentions, s)"
| "resolve_mentions e s (en # ens) mentions =
     (if ent_Type en = ''mention''
      then (case GetUserOrMissing e s (ent_Value en) of
              (Inl x, s1) \<Rightarrow> (Inl x, s1)
            | (Inr ai, s1) \<Rightarrow> resolve_mentions e s1 ens (mentions @ [ai]))
      else resolve_mentions e s ens mentions)"

fun AddMention_loop :: "env \<Rightarrow> ix_state \<Rightarrow> FeedPost \<Rightarrow> ActorInfo list \<Rightarrow> err option \<times> ix_state" where
  "AddMention_loop e s fp [] = (None, s)"
| "AddMention_loop e s fp (m # ms) =
     (case notify e s (AddMention (fp_Author fp) (fp_ID fp) (ai_Uid m)) of
        (Some x, s1) \<Rightarrow> (Some x, s1)
      | (None, s1) \<Rightarrow> AddMention_loop e s1 fp ms)"

definition addNewPostNotification :: "env \<Rightarrow> ix_state \<Rightarrow> ReplyRef option \<Rightarrow> FeedPost
    \<Rightarrow> ActorInfo list \<Rightarrow> err option \<times> ix_state" where
  "addNewPostNotification e s reply fp mentions =
     (case reply of
        None \<Rightarrow> AddMention_loop e s fp mentions
      | Some r \<Rightarrow>
     (case reply_Parent r of
        None \<Rightarrow> (Some (Panic ''post.Reply.Parent''), s)
      | Some puri \<Rightarrow>
     (case GetPost e s puri of
        (Inl x, s1) \<Rightarrow> (Some x, s1)
      | (Inr replyto, s1) \<Rightarrow>
     (case notify e s1 (AddReplyTo (fp_Author fp) (fp_ID fp) replyto) of
        (Some x, s2) \<Rightarrow> (Some x, s2)
      | (None, s2) \<Rightarrow> AddMention_loop e s2 fp mentions))))"

text \<open>
  The write of \<^verbatim>\<open>handleRecordCreateFeedPost\<close>: \<open>maybe\<close> is what the \<^verbatim>\<open>Find\<close> by (rkey,
  author) left. When a row exists, whether it is a placeholder or not (the source only logs a
  warning for a row with \<^verbatim>\<open>Missing = false\<close>), the new row is written by the upsert.
\<close>

definition handleRecordCreateFeedPost :: "env \<Rightarrow> ix_state \<Rightarrow> nat \<Rightarrow> string \<Rightarrow> string
    \<Rightarrow> Entity list \<Rightarrow> ReplyRef option \<Rightarrow> err option \<times> ix_state" where
  "handleRecordCreateFeedPost e s user rkey rcid entities reply =
     (case resolve_reply e s reply of
        (Inl x, s1) \<Rightarrow> (Some x, s1)
      | (Inr replyid, s1) \<Rightarrow>
     (case resolve_mentions e s1 entities [] of
        (Inl x, s2) \<Rightarrow> (Some x, s2)
      | (Inr mentions, s2) \<Rightarrow>
     (if failing e s2 then (Some DBError, tickup s2)
      else (let maybe = (case filter (\<lambda>p. fp_Rkey p = rkey \<and> fp_Author p = user) (posts s2) of
                           [] \<Rightarrow> zero_FeedPost
                         | p # ps \<Rightarrow> p);
                fp = \<lparr>fp_ID = 0, fp_Author = user, fp_Rkey = rkey, fp_Cid = rcid,
                      fp_ReplyTo = replyid, fp_Missing = False, fp_Deleted = False,
                      fp_UpCount = 0\<rparr>
            in case (if fp_ID maybe \<noteq> 0 then Upsert_post e (tickup s2) fp
                     else Create_post e (tickup s2) fp) of
                 (Inl x, s3) \<Rightarrow> (Some x, s3)
               | (Inr fp', s3) \<Rightarrow> addNewPostNotification e s3 reply fp' mentions))))"

subsection \<open>Dispatch by record type and collection\<close>

text \<open>
  \<^verbatim>\<open>handleRecordCreate\<close> also returns a list of PDS ids, which every caller discards; only its
  error is kept here.
\<close>

definition handleRecordCreate :: "env \<Rightarrow> ix_state \<Rightarrow> RepoEvent \<Rightarrow> RepoOp \<Rightarrow> err option \<times> ix_state" where
  "handleRecordCreate e s evt op =
     (case op_Record op of
        FeedPost_rec entities reply \<Rightarrow>
          (case op_RecCid op of
             None \<Rightarrow> (Some (Panic ''op.RecCid''), s)
           | Some rcid \<Rightarrow> handleRecordCreateFeedPost e s (ev_User evt) (op_Rkey op) rcid entities reply)
      | FeedRepost_rec subject createdAt \<Rightarrow>
          (case subject of
             None \<Rightarrow> (Some (Panic ''rec.Subject''), s)
           | Some uri \<Rightarrow>
          (case GetPostOrMissing e s uri of
             (Inl x, s1) \<Rightarrow> (Some x, s1)
           | (Inr fp, s1) \<Rightarrow>
          (case LookupUser e s1 (fp_Author fp) of
             (Inl x, s2) \<Rightarrow> (Some x, s2)
           | (Inr author, s2) \<Rightarrow>
          (case op_RecCid op of
             None \<Rightarrow> (Some (Panic ''op.RecCid''), s2)
           | Some rcid \<Rightarrow>
          (case Create_repost e s2 \<lparr>rr_ID = 0, rr_RecCreated = createdAt, rr_Post = fp_ID fp,
                                     rr_Reposter = ev_User evt, rr_Author = fp_Author fp,
                                     rr_RecCid = rcid, rr_Rkey = op_Rkey op\<rparr> of
             (Inl x, s3) \<Rightarrow> (Some x, s3)
           | (Inr rr, s3) \<Rightarrow> notify e s3 (AddRepost (fp_Author fp) (rr_ID rr) (ev_User evt)))))))
      | FeedLike_rec subject createdAt \<Rightarrow> handleRecordCreateFeedLike e s subject createdAt evt op
      | GraphFollow_rec subject \<Rightarrow> handleRecordCreateGraphFollow e s subject evt op
      | ActorProfile_rec \<Rightarrow> (None, s)
      | GraphBlock_rec subject \<Rightarrow> (Some (Errorf ''unrecognized record type: %T''), s)
      | Other_rec \<Rightarrow> (Some (Errorf ''unrecognized record type: %T''), s))"

definition handleRecordDelete :: "env \<Rightarrow> ix_state \<Rightarrow> RepoEvent \<Rightarrow> RepoOp \<Rightarrow> err option \<times> ix_state" where
  "handleRecordDelete e s evt op =
     (if op_Collection op = ''app.bsky.feed.post'' then
        (case LookupUser e s (ev_User evt) of
           (Inl x, s1) \<Rightarrow> (Some x, s1)
         | (Inr u, s1) \<Rightarrow>
             (let uri = ''at://'' @ ai_Did u @ ''/app.bsky.feed.post/'' @ op_Rkey op
              in case GetPost e s1 uri of
                   (Inl x, s2) \<Rightarrow> if isNotFound x then (None, s2) else (Some x, s2)
                 | (Inr fp, s2) \<Rightarrow>
                     if failing e s2 then (Some DBError, tickup s2)
                     else (None, (tickup s2)\<lparr>posts := map (\<lambda>p. if fp_ID p = fp_ID fp
                                                                  then p\<lparr>fp_Deleted := True\<rparr> else p)
                                                          (posts s2)\<rparr>)))
      else if op_Collection op = ''app.bsky.feed.repost'' then
        (if failing e s then (Some DBError, tickup s)
         else (None, (tickup s)\<lparr>reposts := filter (\<lambda>r. \<not> (rr_Reposter r = ev_User evt \<and> rr_Rkey r = op_Rkey op))
                                             (reposts s)\<rparr>))
      else if op_Collection op = ''app.bsky.feed.vote'' then handleRecordDeleteFeedLike e s evt op
      else if op_Collection op = ''app.bsky.graph.follow'' then handleRecordDeleteGraphFollow e s evt op
      else if op_Collection op = ''app.bsky.graph.confirmation'' then (None, s)
      else (Some (Errorf ''unrecognized record type (delete): %q''), s))"

text \<open>
  In the update of a like the \<^verbatim>\<open>Find\<close> asks for the column \<^verbatim>\<open>voted\<close>. A VoteRecord has the
  column \<^verbatim>\<open>voter\<close> (the create writes the field \<^verbatim>\<open>Voter\<close>, the delete asks for \<^verbatim>\<open>voter\<close>), so
  the database rejects the statement and the handler returns its error.
\<close>

definition handleRecordUpdate :: "env \<Rightarrow> ix_state \<Rightarrow> RepoEvent \<Rightarrow> RepoOp \<Rightarrow> err option \<times> ix_state" where
  "handleRecordUpdate e s evt op =
     (case op_Record op of
        FeedPost_rec entities reply \<Rightarrow>
          (case LookupUser e s (ev_User evt) of
             (Inl x, s1) \<Rightarrow> (Some x, s1)
           | (Inr u, s1) \<Rightarrow>
          (case GetPostOrMissing e s1 (''at://'' @ ai_Did u @ ''/app.bsky.feed.post/'' @ op_Rkey op) of
             (Inl x, s2) \<Rightarrow> (Some x, s2)
           | (Inr fp, s2) \<Rightarrow>
          (if (fp_ReplyTo fp \<noteq> 0) \<noteq> (reply \<noteq> None) then (None, s2)
           else
          (case (case reply of
                   None \<Rightarrow> (Inr True, s2)
                 | Some r \<Rightarrow>
                     (case reply_Parent r of
                        None \<Rightarrow> (Inl (Panic ''rec.Reply.Parent''), s2)
                      | Some puri \<Rightarrow>
                          (case GetPostOrMissing e s2 puri of
                             (Inl x, s3) \<Rightarrow> (Inl x, s3)
                           | (Inr replyto, s3) \<Rightarrow> (Inr (fp_ID replyto = fp_ReplyTo fp), s3)))) of
             (Inl x, s3) \<Rightarrow> (Some x, s3)
           | (Inr same, s3) \<Rightarrow>
               if \<not> same then (None, s3)
               else (case op_RecCid op of
                       None \<Rightarrow> (Some (Panic ''op.RecCid''), s3)
                     | Some rcid \<Rightarrow>
                         if failing e s3 then (Some DBError, tickup s3)
                         else (None, (tickup s3)\<lparr>posts := map (\<lambda>p. if fp_ID p = fp_ID fp
                                                                      then p\<lparr>fp_Cid := rcid\<rparr> else p)
                                                              (posts s3)\<rparr>))))))
      | FeedRepost_rec subject createdAt \<Rightarrow>
          (if failing e s then (Some DBError, tickup s)
           else (case filter (\<lambda>r. rr_Reposter r = ev_User evt \<and> rr_Rkey r = op_Rkey op) (reposts s) of
                   [] \<Rightarrow> (Some ErrRecordNotFound, tickup s)
                 | rr # rrs \<Rightarrow>
                     (case op_RecCid op of
                        None \<Rightarrow> (Some (Panic ''op.RecCid''), tickup s)
                      | Some rcid \<Rightarrow>
                          (let s1 = tickup s;
                               rr' = rr\<lparr>rr_RecCreated := createdAt, rr_RecCid := rcid\<rparr>
                           in if failing e s1 then (Some DBError, tickup s1)
                              else (None, (tickup s1)\<lparr>reposts := map (\<lambda>r. if rr_ID r = rr_ID rr' then rr' else r)
                                                                     (reposts s1)\<rparr>)))))
      | FeedLike_rec subject createdAt \<Rightarrow> (Some DBError, tickup s)
      | GraphFollow_rec subject \<Rightarrow>
          (case handleRecordDeleteGraphFollow e s evt op of
             (Some x, s1) \<Rightarrow> (Some x, s1)
           | (None, s1) \<Rightarrow> handleRecordCreateGraphFollow e s1 subject evt op)
      | ActorProfile_rec \<Rightarrow> (None, s)
      | GraphBlock_rec subject \<Rightarrow> (Some (Errorf ''unrecognized record type: %T''), s)
      | Other_rec \<Rightarrow> (Some (Errorf ''unrecognized record type: %T''), s))"

subsection \<open>Reference crawling\<close>

definition crawlAtUriRef :: "env \<Rightarrow> ix_state \<Rightarrow> string \<Rightarrow> err option \<times> ix_state" where
  "crawlAtUriRef e s uri =
     (case ParseAtUri e uri of
        Inl x \<Rightarrow> (Some x, s)
      | Inr puri \<Rightarrow>
          (case GetUserOrMissing e s (pu_Did puri) of
             (Inl x, s1) \<Rightarrow> (Some x, s1)
           | (Inr ai, s1) \<Rightarrow> (None, s1)))"

text \<open>The loop over the entities of a post: a failed lookup is logged, the loop goes on.\<close>

fun crawl_mentions :: "env \<Rightarrow> ix_state \<Rightarrow> Entity list \<Rightarrow> ix_state" where
  "crawl_mentions e s [] = s"
| "crawl_mentions e s (en # ens) =
     (if ent_Type en = ''mention''
      then crawl_mentions e (snd (GetUserOrMissing e s (ent_Value en))) ens
      else crawl_mentions e s ens)"

definition crawlRecordReferences :: "env \<Rightarrow> ix_state \<Rightarrow> RepoOp \<Rightarrow> err option \<times> ix_state" where
  "crawlRecordReferences e s op =
     (case op_Record op of
        FeedPost_rec entities reply \<Rightarrow>
          (let s1 = crawl_mentions e s entities
           in case reply of
                None \<Rightarrow> (None, s1)
              | Some r \<Rightarrow>
                  (let s2 = (case reply_Parent r of
                               None \<Rightarrow> s1
                             | Some puri \<Rightarrow> snd (crawlAtUriRef e s1 puri));
                       s3 = (case reply_Root r of
                               None \<Rightarrow> s2
                             | Some ruri \<Rightarrow> snd (crawlAtUriRef e s2 ruri))
                   in (None, s3)))
      | FeedRepost_rec subject createdAt \<Rightarrow>
          (case subject of
             None \<Rightarrow> (None, s)
           | Some uri \<Rightarrow> (None, snd (crawlAtUriRef e s uri)))
      | FeedLike_rec subject createdAt \<Rightarrow>
          (case subject of
             None \<Rightarrow> (None, s)
           | Some uri \<Rightarrow> (None, snd (crawlAtUriRef e s uri)))
      | GraphFollow_rec subject \<Rightarrow> (None, snd (GetUserOrMissing e s subject))
      | GraphBlock_rec subject \<Rightarrow> (None, snd (GetUserOrMissing e s subject))
      | ActorProfile_rec \<Rightarrow> (None, s)
      | Other_rec \<Rightarrow> (None, s))"

subsection \<open>Events\<close>

definition handleRepoOp :: "env \<Rightarrow> ix_state \<Rightarrow> RepoEvent \<Rightarrow> RepoOp \<Rightarrow> err option \<times> ix_state" where
  "handleRepoOp e s evt op =
     (if op_Kind op = EvtKindCreateRecord then
        (case (if doAggregations e then handleRecordCreate e s evt op else (None, s)) of
           (Some x, s1) \<Rightarrow> (Some (wrap ''handle recordCreate: %w'' x), s1)
         | (None, s1) \<Rightarrow> crawlRecordReferences e s1 op)
      else if op_Kind op = EvtKindDeleteRecord then
        (case (if doAggregations e then handleRecordDelete e s evt op else (None, s)) of
           (Some x, s1) \<Rightarrow> (Some (wrap ''handle recordDelete: %w'' x), s1)
         | (None, s1) \<Rightarrow> (None, s1))
      else if op_Kind op = EvtKindUpdateRecord then
        (case (if doAggregations e then handleRecordUpdate e s evt op else (None, s)) of
           (Some x, s1) \<Rightarrow> (Some (wrap ''handle recordCreate: %w'' x), s1)
         | (None, s1) \<Rightarrow> (None, s1))
      else (Some (Errorf ''unrecognized repo event type: %q''), s))"

definition MaxEventSliceLength :: nat where
  "MaxEventSliceLength = 1000000"

definition MaxOpsSliceLength :: nat where
  "MaxOpsSliceLength = 200"

text \<open>
  The loop of \<^verbatim>\<open>HandleRepoEvent\<close>: the outbound operation is appended, the operation is
  handled, and its error is logged. Only a panic ends the loop.
\<close>

fun ops_loop :: "env \<Rightarrow> RepoEvent \<Rightarrow> ix_state \<Rightarrow> RepoOp list \<Rightarrow> SyncSubscribeRepos_RepoOp slice
    \<Rightarrow> (err + SyncSubscribeRepos_RepoOp slice) \<times> ix_state" where
  "ops_loop e evt s [] outops = (Inr outops, s)"
| "ops_loop e evt s (op # ops) outops =
     (let outops1 = go_append outops \<lparr>ro_Path = op_Collection op @ ''/'' @ op_Rkey op,
                                      ro_Action = op_Kind op, ro_Cid = op_RecCid op\<rparr>
      in case handleRepoOp e s evt op of
           (Some x, s1) \<Rightarrow> if is_panic x then (Inl x, s1) else ops_loop e evt s1 ops outops1
         | (None, s1) \<Rightarrow> ops_loop e evt s1 ops outops1)"

definition HandleRepoEvent :: "env \<Rightarrow> ix_state \<Rightarrow> RepoEvent \<Rightarrow> err option \<times> ix_state" where
  "HandleRepoEvent e s evt =
     (case ops_loop e evt s (ev_Ops evt) None of
        (Inl x, s1) \<Rightarrow> (Some x, s1)
      | (Inr outops, s1) \<Rightarrow>
     (case DidForUser e s1 (ev_User evt) of
        (Inl x, s2) \<Rightarrow> (Some x, s2)
      | (Inr did, s2) \<Rightarrow>
          (let toobig = (go_len (ev_RepoSlice evt) > MaxEventSliceLength
                         \<or> go_len outops > MaxOpsSliceLength)
           in case AddEvent e s2
                \<lparr>xe_RepoCommit =
                   \<lparr>c_Repo = did, c_Prev = ev_OldRoot evt,
                    c_Blocks = (if toobig then None else ev_RepoSlice evt),
                    c_Rev = ev_Rev evt, c_Since = ev_Since evt, c_Commit = ev_NewRoot evt,
                    c_Time = now e,
                    c_Ops = (if toobig then None else outops),
                    c_TooBig = toobig\<rparr>,
                 xe_PrivUid = ev_User evt\<rparr> of
                (Some x, s3) \<Rightarrow> (Some (Errorf ''failed to push event: %s''), s3)
              | (None, s3) \<Rightarrow> (None, s3))))"

subsection \<open>Actor initialisation\<close>

text \<open>
  \<^verbatim>\<open>Clauses(clause.OnConflict{Columns: uid; UpdateAll: true}).Create(&models.ActorInfo{...})\<close>: a
  row with the same \<^verbatim>\<open>uid\<close> keeps its primary key and takes the new columns. The DID and the
  handle of an actor are unique in the table: the statement fails when a row of another
  \<^verbatim>\<open>uid\<close> has the DID or the handle of the new row (\<^verbatim>\<open>NULL\<close> handles do not collide).
\<close>

definition Upsert_actor :: "env \<Rightarrow> ix_state \<Rightarrow> ActorInfo \<Rightarrow> err option \<times> ix_state" where
  "Upsert_actor e s ai =
     (if failing e s then (Some DBError, tickup s)
      else if list_ex (\<lambda>a. ai_Uid a \<noteq> ai_Uid ai
                          \<and> (ai_Did a = ai_Did ai
                               \<or> (ai_Handle ai \<noteq> None \<and> ai_Handle a = ai_Handle ai))) (actors s)
        then (Some ConstraintViolation, tickup s)
      else if list_ex (\<lambda>a. ai_Uid a = ai_Uid ai) (actors s)
        then (None, (tickup s)\<lparr>actors := map (\<lambda>a. if ai_Uid a = ai_Uid ai then ai\<lparr>ai_ID := ai_ID a\<rparr> else a)
                                          (actors s)\<rparr>)
      else (None, (tickup s)\<lparr>actors := actors s @ [ai\<lparr>ai_ID := next_actor_id s\<rparr>],
                             next_actor_id := Suc (next_actor_id s)\<rparr>))"

definition handleInitActor :: "env \<Rightarrow> ix_state \<Rightarrow> RepoEvent \<Rightarrow> RepoOp \<Rightarrow> err option \<times> ix_state" where
  "handleInitActor e s evt op =
     (case op_ActorInfo op of
        None \<Rightarrow> (Some (Panic ''op.ActorInfo''), s)
      | Some ai \<Rightarrow>
     (case Upsert_actor e s \<lparr>ai_ID = 0, ai_Uid = ev_User evt, ai_Handle = Some (rai_Handle ai),
                              ai_Did = rai_Did ai, ai_DisplayName = rai_DisplayName ai,
                              ai_Type = rai_Type ai, ai_PDS = ev_PDS evt\<rparr> of
        (Some x, s1) \<Rightarrow> (Some (wrap ''initializing new actor info: %w'' x), s1)
      | (None, s1) \<Rightarrow>
     (case Create_follow e s1 \<lparr>fr_ID = 0, fr_Follower = ev_User evt, fr_Target = ev_User evt,
                                fr_Rkey = [], fr_Cid = []\<rparr> of
        (Inl x, s2) \<Rightarrow> (Some x, s2)
      | (Inr fr, s2) \<Rightarrow> (None, s2))))"

subsection \<open>Fetching and importing a repository\<close>

text \<open>
  \<^verbatim>\<open>fetchRepo\<close> waits for the limiter of the PDS, which only delays the call, and asks the
  PDS for the repository. \<open>n\<close> is the number of the attempt.
\<close>

definition fetchRepo :: "env \<Rightarrow> ix_state \<Rightarrow> nat \<Rightarrow> string \<Rightarrow> string \<Rightarrow> (err + 8 word list) \<times> ix_state" where
  "fetchRepo e s n did curRev =
     (let s1 = s\<lparr>calls := calls s @ [CallSyncGetRepo did curRev]\<rparr>
      in case SyncGetRepo e n did curRev of
           Inl x \<Rightarrow> (Inl (wrap ''failed to fetch repo (did=%s,rev=%s,host=%s): %w'' x), s1)
         | Inr repo \<Rightarrow> (Inr repo, s1))"

definition repomgr_ImportNewRepo :: "env \<Rightarrow> ix_state \<Rightarrow> nat \<Rightarrow> nat \<Rightarrow> string \<Rightarrow> 8 word list
    \<Rightarrow> string option \<Rightarrow> err option \<times> ix_state" where
  "repomgr_ImportNewRepo e s n uid did repo curRev =
     (ImportNewRepo e n uid did repo curRev,
      s\<lparr>calls := calls s @ [CallImportNewRepo uid did repo curRev]\<rparr>)"

text \<open>
  The replay of the buffer: \<open>True\<close> is the flag \<^verbatim>\<open>resync\<close>, set by the first event that the
  repository manager rejects, which also ends the loop.
\<close>

fun catchup_loop :: "env \<Rightarrow> ix_state \<Rightarrow> PDS \<Rightarrow> ActorInfo \<Rightarrow> nat \<Rightarrow> SyncSubscribeRepos_Commit list
    \<Rightarrow> bool \<times> ix_state" where
  "catchup_loop e s pds ai i [] = (False, s)"
| "catchup_loop e s pds ai i (j # js) =
     (let s1 = s\<lparr>calls := calls s @ [CallHandleExternalUserEvent (pds_ID pds) (ai_Uid ai) (ai_Did ai)
                                        (c_Since j) (c_Rev j) (c_Blocks j) (c_Ops j)]\<rparr>
      in case HandleExternalUserEvent e i j of
           Some x \<Rightarrow> (True, s1)
         | None \<Rightarrow> catchup_loop e s1 pds ai (Suc i) js)"

text \<open>The part of \<^verbatim>\<open>FetchAndIndexRepo\<close> after the catch-up: the fetch, the import, the retry.\<close>

definition fetch_and_import :: "env \<Rightarrow> ix_state \<Rightarrow> ActorInfo \<Rightarrow> string \<Rightarrow> err option \<times> ix_state" where
  "fetch_and_import e s ai curRev =
     (case fetchRepo e s 0 (ai_Did ai) curRev of
        (Inl x, s1) \<Rightarrow> (Some x, s1)
      | (Inr repo, s1) \<Rightarrow>
     (case repomgr_ImportNewRepo e s1 0 (ai_Uid ai) (ai_Did ai) repo (Some curRev) of
        (None, s2) \<Rightarrow> (None, s2)
      | (Some x, s2) \<Rightarrow>
          if ipld_IsNotFound x then
            (case fetchRepo e s2 1 (ai_Did ai) [] of
               (Inl y, s3) \<Rightarrow> (Some y, s3)
             | (Inr repo2, s3) \<Rightarrow>
                 (case repomgr_ImportNewRepo e s3 1 (ai_Uid ai) (ai_Did ai) repo2 None of
                    (Some y, s4) \<Rightarrow> (Some (wrap ''failed to import backup repo (%s): %w'' y), s4)
                  | (None, s4) \<Rightarrow> (None, s4)))
          else (Some (wrap ''importing fetched repo (curRev: %s): %w'' x), s2)))"

text \<open>
  \<^verbatim>\<open>FetchAndIndexRepo\<close> from the catch-up on, with the PDS row and the stored revision in
  hand.
\<close>

definition FetchAndIndexRepo_body :: "env \<Rightarrow> ix_state \<Rightarrow> crawlWork \<Rightarrow> PDS \<Rightarrow> string
    \<Rightarrow> err option \<times> ix_state" where
  "FetchAndIndexRepo_body e s job pds curRev =
     (let ai = job_act job in
      if \<not> job_initScrape job \<and> length (job_catchup job) > 0 then
        (let first = hd (job_catchup job) in
         if c_Since first = None \<or> Some curRev = c_Since first then
           (case catchup_loop e s pds ai 0 (job_catchup job) of
              (False, s1) \<Rightarrow> (None, s1)
            | (True, s1) \<Rightarrow> fetch_and_import e s1 ai curRev)
         else fetch_and_import e s ai curRev)
      else fetch_and_import e s ai curRev)"

definition FetchAndIndexRepo :: "env \<Rightarrow> ix_state \<Rightarrow> crawlWork \<Rightarrow> err option \<times> ix_state" where
  "FetchAndIndexRepo e s job =
     (let ai = job_act job in
      if failing e s
      then (Some (wrap ''expected to find pds record (%d) in db for crawling one of their users: %w'' DBError),
            tickup s)
      else
     (case filter (\<lambda>p. pds_ID p = ai_PDS ai) (pdss s) of
        [] \<Rightarrow> (Some (wrap ''expected to find pds record (%d) in db for crawling one of their users: %w''
                       ErrRecordNotFound), tickup s)
      | pds # ps \<Rightarrow>
     (case GetRepoRev e (ai_Uid ai) of
        (curRev, Some x) \<Rightarrow>
          if \<not> isNotFound x then (Some (wrap ''failed to get repo root: %w'' x), tickup s)
          else FetchAndIndexRepo_body e (tickup s) job pds curRev
      | (curRev, None) \<Rightarrow> FetchAndIndexRepo_body e (tickup s) job pds curRev)))"

section \<open>Vocabulary of the properties\<close>

text \<open>
  The operations of the outbound envelope in the words of the specification:
  \<open>{path = collection + "/" + rkey, action = kind, cid}\<close> for each operation of the event (a
  Go slice that nothing was appended to is \<^verbatim>\<open>nil\<close>).
\<close>

definition spec_ops :: "RepoOp list \<Rightarrow> SyncSubscribeRepos_RepoOp slice" where
  "spec_ops ops =
     (if ops = [] then None
      else Some (map (\<lambda>op. \<lparr>ro_Path = op_Collection op @ ''/'' @ op_Rkey op,
                              ro_Action = op_Kind op, ro_Cid = op_RecCid op\<rparr>) ops))"


text \<open>
  The up-count invariant of the data model: the up-count of every stored post is the number
  of VoteRecord rows that refer to it. With it, what the database guarantees of primary
  keys: they are positive, below the next key of their table and, for votes, distinct; and
  a vote refers to a key that has been issued to a post.
\<close>

definition up_count_ok :: "ix_state \<Rightarrow> bool" where
  "up_count_ok s =
     list_all (\<lambda>p. fp_UpCount p = int (length (filter (\<lambda>v. vr_Post v = fp_ID p) (votes s)))) (posts s)"

definition keys_ok :: "ix_state \<Rightarrow> bool" where
  "keys_ok s =
     (0 < next_post_id s \<and> 0 < next_vote_id s
      \<and> list_all (\<lambda>p. 0 < fp_ID p \<and> fp_ID p < next_post_id s) (posts s)
      \<and> list_all (\<lambda>v. 0 < vr_ID v \<and> vr_ID v < next_vote_id s \<and> vr_Post v < next_post_id s) (votes s)
      \<and> distinct (map vr_ID (votes s)))"

text \<open>
  A like operation as the indexer receives it: a create whose record is a like, or a delete
  in the like collection (or in \<open>app.bsky.feed.vote\<close>, the collection for which the dispatch
  runs the like delete).
\<close>

definition is_like_op :: "RepoOp \<Rightarrow> bool" where
  "is_like_op op =
     ((op_Kind op = EvtKindCreateRecord
        \<and> (case op_Record op of FeedLike_rec subject createdAt \<Rightarrow> True | r \<Rightarrow> False))
      \<or> (op_Kind op = EvtKindDeleteRecord
          \<and> (op_Collection op = ''app.bsky.feed.like'' \<or> op_Collection op = ''app.bsky.feed.vote'')))"

text \<open>
  A sequence of like operations. A step is a like operation handled by \<^verbatim>\<open>handleRepoOp\<close>, or
  a direct run of one of the two handlers, with the event and the operation it is given.
\<close>

datatype like_step =
    LikeOp RepoEvent RepoOp
  | LikeCreate "string option" string RepoEvent RepoOp
  | LikeDelete RepoEvent RepoOp

fun like_step_ok :: "like_step \<Rightarrow> bool" where
  "like_step_ok (LikeOp evt op) = is_like_op op"
| "like_step_ok st = True"

fun like_steps :: "env \<Rightarrow> ix_state \<Rightarrow> like_step list \<Rightarrow> ix_state" where
  "like_steps e s [] = s"
| "like_steps e s (LikeOp evt op # rest) = like_steps e (snd (handleRepoOp e s evt op)) rest"
| "like_steps e s (LikeCreate subject createdAt evt op # rest) =
     like_steps e (snd (handleRecordCreateFeedLike e s subject createdAt evt op)) rest"
| "like_steps e s (LikeDelete evt op # rest) =
     like_steps e (snd (handleRecordDeleteFeedLike e s evt op)) rest"

text \<open>
  Words for the trace of \<^verbatim>\<open>FetchAndIndexRepo\<close>: the call that replays a buffered event, the
  events of a buffer that are handed to the repository manager (up to and including the
  first one it rejects), whether it accepts them all, and whether the import of the first
  fetch fails because a block is missing.
\<close>

fun is_replay :: "call \<Rightarrow> bool" where
  "is_replay (CallHandleExternalUserEvent p u d si r b os) = True"
| "is_replay c = False"

fun is_fetch :: "call \<Rightarrow> bool" where
  "is_fetch (CallSyncGetRepo d r) = True"
| "is_fetch c = False"

definition replay_call :: "PDS \<Rightarrow> ActorInfo \<Rightarrow> SyncSubscribeRepos_Commit \<Rightarrow> call" where
  "replay_call pds ai j = CallHandleExternalUserEvent (pds_ID pds) (ai_Uid ai) (ai_Did ai)
     (c_Since j) (c_Rev j) (c_Blocks j) (c_Ops j)"

fun replayed :: "env \<Rightarrow> nat \<Rightarrow> SyncSubscribeRepos_Commit list \<Rightarrow> SyncSubscribeRepos_Commit list" where
  "replayed e i [] = []"
| "replayed e i (j # js) =
     (case HandleExternalUserEvent e i j of Some x \<Rightarrow> [j] | None \<Rightarrow> j # replayed e (Suc i) js)"

fun accepted :: "env \<Rightarrow> nat \<Rightarrow> SyncSubscribeRepos_Commit list \<Rightarrow> bool" where
  "accepted e i [] = True"
| "accepted e i (j # js) = (HandleExternalUserEvent e i j = None \<and> accepted e (Suc i) js)"

definition missing_block :: "env \<Rightarrow> ActorInfo \<Rightarrow> string \<Rightarrow> bool" where
  "missing_block e ai rv =
     (case SyncGetRepo e 0 (ai_Did ai) rv of
        Inl y \<Rightarrow> False
      | Inr repo \<Rightarrow>
          (case ImportNewRepo e 0 (ai_Uid ai) (ai_Did ai) repo (Some rv) of
             None \<Rightarrow> False
           | Some y \<Rightarrow> ipld_IsNotFound y))"

section \<open>Scenarios\<close>

text \<open>
  Scenario S1 of the specification: actors with UIDs 1 to 5, UID 3 tombstoned. The
  collaborators of the scenario: every repository has a root, a DID is looked up in the
  table, and one string is a CID.
\<close>

definition S1_user :: "nat \<Rightarrow> string \<Rightarrow> bool \<Rightarrow> User" where
  "S1_user i d t = \<lparr>user_ID = i, user_Did = d, user_Tombstoned = t, user_TakenDown = False\<rparr>"

definition S1_users :: "User list" where
  "S1_users = [S1_user 1 ''did:plc:u1'' False, S1_user 2 ''did:plc:u2'' False,
               S1_user 3 ''did:plc:u3'' True, S1_user 4 ''did:plc:u4'' False,
               S1_user 5 ''did:plc:u5'' False]"

definition S1_bgs :: BGS where
  "S1_bgs = \<lparr>bgs_users = S1_users, bgs_query_err = None, bgs_ssl = True,
     bgs_GetRepoRoot = (\<lambda>u. Inr ''root''),
     bgs_lookupUserByDid = (\<lambda>d. case filter (\<lambda>u. user_Did u = d) S1_users of
                                    [] \<Rightarrow> Inl ErrRecordNotFound | u # us \<Rightarrow> Inr u),
     bgs_cid_Decode = (\<lambda>c. if c = ''bafyreigood'' then Inr c else Inl (ExtError ''invalid cid'')),
     bgs_GetRecord = (\<lambda>u c r k. Inr ''record''),
     bgs_MarshalCBOR = (\<lambda>r. Inr r),
     bgs_NormalizeHostname = (\<lambda>h. Inr h),
     bgs_domainIsBanned = (\<lambda>h. (False, None)),
     bgs_ServerDescribeServer = (\<lambda>h. None),
     bgs_SubscribeToPds = (\<lambda>h b. None)\<rparr>"

text \<open>
  The world of scenario S3: author A (UID 1) with the post P (up-count 0), voter V (UID 2),
  one PDS. No step fails, the one URI that parses is that of P, no unknown DID resolves, the
  stored revision of every repository is \<open>r0\<close>, and the repository manager and the PDS
  accept every call.
\<close>

definition W_ParseAtUri :: "string \<Rightarrow> err + ParsedUri" where
  "W_ParseAtUri uri =
     (if uri = ''at://did:plc:a/app.bsky.feed.post/p1''
      then Inr \<lparr>pu_Did = ''did:plc:a'', pu_Collection = ''app.bsky.feed.post'', pu_Rkey = ''p1''\<rparr>
      else Inl (Errorf ''AT uris must be prefixed with at://''))"

definition W_env :: env where
  "W_env = \<lparr>fails = (\<lambda>n. False), doAggregations = True, has_Crawler = True,
     ParseAtUri = W_ParseAtUri,
     CreateExternalUser = (\<lambda>d. Inl (ExtError ''did resolution'')),
     now = ''2023-06-01T00:00:00Z'',
     GetRepoRev = (\<lambda>u. (''r0'', None)),
     HandleExternalUserEvent = (\<lambda>i c. None),
     SyncGetRepo = (\<lambda>n d r. Inr []),
     ImportNewRepo = (\<lambda>n u d b r. None)\<rparr>"

definition W_actor :: "nat \<Rightarrow> string \<Rightarrow> ActorInfo" where
  "W_actor i d = \<lparr>ai_ID = i, ai_Uid = i, ai_Handle = None, ai_Did = d, ai_DisplayName = [],
     ai_Type = [], ai_PDS = 1\<rparr>"

definition W_post :: FeedPost where
  "W_post = \<lparr>fp_ID = 1, fp_Author = 1, fp_Rkey = ''p1'', fp_Cid = ''bafypost'', fp_ReplyTo = 0,
     fp_Missing = False, fp_Deleted = False, fp_UpCount = 0\<rparr>"

definition W_state :: ix_state where
  "W_state = \<lparr>actors = [W_actor 1 ''did:plc:a'', W_actor 2 ''did:plc:v''], posts = [W_post],
     votes = [], reposts = [], follows = [],
     pdss = [\<lparr>pds_ID = 1, pds_Host = ''pds.example.com''\<rparr>],
     next_actor_id = 3, next_post_id = 2, next_vote_id = 1, next_repost_id = 1,
     next_follow_id = 1, tick = 0, notifs = [], crawled = [], emitted = [], calls = []\<rparr>"

text \<open>
  V likes P and V deletes that like: the two operations, and an event of V that carries
  given operations and a given repo slice.
\<close>

definition W_like_op :: RepoOp where
  "W_like_op = \<lparr>op_Kind = EvtKindCreateRecord, op_Collection = ''app.bsky.feed.like'',
     op_Rkey = ''l1'', op_RecCid = Some ''bafylike'',
     op_Record = FeedLike_rec (Some ''at://did:plc:a/app.bsky.feed.post/p1'') ''2023-06-01'',
     op_ActorInfo = None\<rparr>"

definition W_unlike_op :: RepoOp where
  "W_unlike_op = \<lparr>op_Kind = EvtKindDeleteRecord, op_Collection = ''app.bsky.feed.like'',
     op_Rkey = ''l1'', op_RecCid = None, op_Record = Other_rec, op_ActorInfo = None\<rparr>"

definition W_event :: "RepoOp list \<Rightarrow> 8 word slice \<Rightarrow> RepoEvent" where
  "W_event ops blocks = \<lparr>ev_User = 2, ev_PDS = 1, ev_OldRoot = Some ''bafyold'', ev_NewRoot = ''bafynew'',
     ev_Rev = ''r1'', ev_Since = Some ''r0'', ev_Ops = ops, ev_RepoSlice = blocks\<rparr>"

text \<open>
  The same world with exactly one failing step, the \<open>k\<close>-th. The steps of a like create are,
  from 0: the \<^verbatim>\<open>Find\<close> of the post, the lookup of its author, the insert of the VoteRecord,
  the update of the up-count.
\<close>

definition W_env_fail :: "nat \<Rightarrow> env" where
  "W_env_fail k = W_env\<lparr>fails := (\<lambda>n. n = k)\<rparr>"

text \<open>The repository of a new actor N (UID 3) is initialised.\<close>

definition W_init_op :: RepoOp where
  "W_init_op = \<lparr>op_Kind = ''initActor'', op_Collection = [], op_Rkey = [], op_RecCid = None,
     op_Record = Other_rec,
     op_ActorInfo = Some \<lparr>rai_Did = ''did:plc:n'', rai_Handle = ''n.example.com'',
                           rai_DisplayName = ''N'', rai_Type = []\<rparr>\<rparr>"

definition W_init_event :: RepoEvent where
  "W_init_event = \<lparr>ev_User = 3, ev_PDS = 1, ev_OldRoot = None, ev_NewRoot = ''bafyinit'',
     ev_Rev = ''r0'', ev_Since = None, ev_Ops = [W_init_op], ev_RepoSlice = None\<rparr>"

text \<open>
  Scenarios S5 and S6 of the specification, for the repository of V, whose stored revision is
  \<open>r0\<close>. In S5 the buffer holds two events, the first with \<open>since = r0\<close>. In S6 the buffer
  holds one event with \<open>since = rX\<close>, and the import of the first fetch misses a block.
\<close>

definition W_commit :: "string \<Rightarrow> string \<Rightarrow> SyncSubscribeRepos_Commit" where
  "W_commit since rv = \<lparr>c_Repo = ''did:plc:v'', c_Prev = None, c_Blocks = None, c_Rev = rv,
     c_Since = Some since, c_Commit = ''bafycommit'', c_Time = ''2023-06-01T00:00:00Z'',
     c_Ops = None, c_TooBig = False\<rparr>"

definition S5_job :: crawlWork where
  "S5_job = \<lparr>job_act = W_actor 2 ''did:plc:v'', job_initScrape = False,
     job_catchup = [W_commit ''r0'' ''r1'', W_commit ''r1'' ''r2'']\<rparr>"

definition S6_job :: crawlWork where
  "S6_job = \<lparr>job_act = W_actor 2 ''did:plc:v'', job_initScrape = False,
     job_catchup = [W_commit ''rX'' ''r1'']\<rparr>"

definition S6_env :: env where
  "S6_env = W_env\<lparr>ImportNewRepo := (\<lambda>n u d b r. if n = 0 then Some IpldErrNotFound else None)\<rparr>"

section \<open>Properties of the XRPC handlers\<close>

subsection \<open>Pagination and validation\<close>

lemma ParseInt_2: "ParseInt ''2'' = Inr 2"
  by (simp add: ParseInt_def ParseUint_def is_digit_def digit_val_def)

lemma ParseInt_abc: "ParseInt ''abc'' = Inl ErrSyntax"
  by (simp add: ParseInt_def ParseUint_def is_digit_def)

lemma FormatInt_4: "FormatInt 4 = ''4''"
  by (simp add: FormatInt_def digit_char_def)

lemma FormatInt_5: "FormatInt 5 = ''5''"
  by (simp add: FormatInt_def digit_char_def)

lemma S1_page2: "listRepos_query S1_users 2 2 = [S1_user 4 ''did:plc:u4'' False, S1_user 5 ''did:plc:u5'' False]"
  by (simp add: listRepos_query_def S1_users_def S1_user_def sql_limit_def)

text \<open>
  What \<^verbatim>\<open>listRepos\<close> returns as the cursor of a non-empty page: the cursor it was given plus
  the number of rows of the page.
\<close>

lemma listRepos_cursor:
  assumes "handleComAtprotoSyncListRepos s cursor limit = Inr out"
    and "out_Repos out \<noteq> []"
  shows "\<exists>c0. (if cursor \<noteq> [] then ParseInt cursor else Inr 0) = Inr c0 \<and>
           out_Cursor out = Some (FormatInt (sint ((word_of_int c0 :: 64 word)
             + word_of_nat (length (listRepos_query (bgs_users s) (word_of_int c0) limit)))))"
  using assms
  by (auto simp: handleComAtprotoSyncListRepos_def Let_def empty_output_def
      split: sum.splits option.splits if_splits)

text \<open>
  C2. The claim: the cursor of a non-empty page is the UID of the last repo of the page.
  The code at the second page of scenario S1 (cursor \<open>2\<close>, limit \<open>2\<close>): the page holds the
  repos of UIDs 4 and 5, its last UID prints as \<open>5\<close>, and the cursor returned is \<open>4\<close>.
\<close>

theorem listRepos_S1_second_page:
  "handleComAtprotoSyncListRepos S1_bgs ''2'' 2 =
     Inr \<lparr>out_Cursor = Some ''4'',
          out_Repos = [\<lparr>repo_Did = ''did:plc:u4'', repo_Head = ''root''\<rparr>,
                       \<lparr>repo_Did = ''did:plc:u5'', repo_Head = ''root''\<rparr>]\<rparr>
   \<and> FormatInt (int (user_ID (last (listRepos_query (bgs_users S1_bgs) 2 2)))) = ''5''"
  by (simp add: handleComAtprotoSyncListRepos_def ParseInt_2 S1_bgs_def S1_page2 S1_user_def
      FormatInt_4 FormatInt_5 Let_def)

text \<open>
  C8. The claim: a hostname with a scheme, a cursor that is no base-10 integer and a commit
  that is no CID each give HTTP status 400. The code: the hostname does; the cursor
  \<open>abc\<close> and, for the live user of UID 1, the commit \<open>notacid\<close> give errors built by
  \<^verbatim>\<open>fmt.Errorf\<close>, which carry no HTTP status.
\<close>

theorem validation_errors_status:
  "(\<exists>x. handleComAtprotoSyncRequestCrawl S1_bgs ''https://example.com'' = Some x \<and> http_code x = Some 400)
   \<and> handleComAtprotoSyncListRepos S1_bgs ''abc'' 2 = Inl (Wrap ''invalid cursor: %w'' ErrSyntax)
   \<and> http_code (Wrap ''invalid cursor: %w'' ErrSyntax) = None
   \<and> handleComAtprotoSyncGetRecord S1_bgs ''app.bsky.feed.post'' ''notacid'' ''did:plc:u1'' ''3k''
       = Inl (Wrap ''failed to decode commit cid: %w'' (ExtError ''invalid cid''))
   \<and> http_code (Wrap ''failed to decode commit cid: %w'' (ExtError ''invalid cid'')) = None"
  by (simp add: handleComAtprotoSyncRequestCrawl_def handleComAtprotoSyncListRepos_def
      handleComAtprotoSyncGetRecord_def ParseInt_abc S1_bgs_def S1_users_def S1_user_def)

section \<open>Properties of the indexer\<close>

subsection \<open>The dispatch of deletes\<close>

text \<open>
  C6. The claim: a delete whose collection is \<open>app.bsky.feed.like\<close> runs the like-delete
  transaction and is not an ``unrecognized record type''. The code: the dispatch of
  \<^verbatim>\<open>handleRecordDelete\<close> tests for \<open>app.bsky.feed.vote\<close>, so for every state, event and
  operation a delete in the collection \<open>app.bsky.feed.like\<close> returns the error of the
  default case and leaves the state as it was.
\<close>

theorem like_delete_unrecognized:
  "handleRecordDelete e s evt (op\<lparr>op_Collection := ''app.bsky.feed.like''\<rparr>)
     = (Some (Errorf ''unrecognized record type (delete): %q''), s)"
  by (simp add: handleRecordDelete_def)

subsection \<open>The emitted envelope\<close>

text \<open>
  No operation of the indexer hands anything to the broadcaster: from the user directory up
  to \<^verbatim>\<open>handleRepoOp\<close> and the loop over the operations of an event, the trace of emitted
  events stays as it is.
\<close>

lemma emitted_tickup [simp]: "emitted (tickup s) = emitted s"
  by (simp add: tickup_def)

lemma emitted_rollback [simp]: "emitted (rollback s0 s1) = emitted s1"
  by (simp add: rollback_def)

lemma emitted_notify: "notify e s n = (r, s') \<Longrightarrow> emitted s' = emitted s"
  by (auto simp: notify_def split: if_splits)

lemma emitted_DidForUser: "DidForUser e s u = (r, s') \<Longrightarrow> emitted s' = emitted s"
  by (auto simp: DidForUser_def split: if_splits list.splits)

lemma emitted_LookupUser: "LookupUser e s u = (r, s') \<Longrightarrow> emitted s' = emitted s"
  by (auto simp: LookupUser_def split: if_splits list.splits)

lemma emitted_LookupUserByDid: "LookupUserByDid e s u = (r, s') \<Longrightarrow> emitted s' = emitted s"
  by (auto simp: LookupUserByDid_def Let_def split: if_splits list.splits)

lemma emitted_addUserToCrawler: "addUserToCrawler e s u = (r, s') \<Longrightarrow> emitted s' = emitted s"
  by (auto simp: addUserToCrawler_def Let_def split: if_splits list.splits)

lemma emitted_createMissingUserRecord: "createMissingUserRecord e s u = (r, s') \<Longrightarrow> emitted s' = emitted s"
  by (auto simp: createMissingUserRecord_def Let_def split: if_splits sum.splits prod.splits option.splits
      dest!: emitted_addUserToCrawler)

lemma emitted_GetUserOrMissing: "GetUserOrMissing e s u = (r, s') \<Longrightarrow> emitted s' = emitted s"
  by (auto simp: GetUserOrMissing_def Let_def split: if_splits sum.splits prod.splits option.splits
      dest!: emitted_LookupUserByDid emitted_createMissingUserRecord)

lemma emitted_GetPost: "GetPost e s u = (r, s') \<Longrightarrow> emitted s' = emitted s"
  by (auto simp: GetPost_def Let_def split: if_splits sum.splits list.splits)

lemma emitted_Create_post: "Create_post e s u = (r, s') \<Longrightarrow> emitted s' = emitted s"
  by (auto simp: Create_post_def Let_def split: if_splits sum.splits list.splits)

lemma emitted_Upsert_post: "Upsert_post e s u = (r, s') \<Longrightarrow> emitted s' = emitted s"
  by (auto simp: Upsert_post_def Let_def split: if_splits sum.splits list.splits)

lemma emitted_FirstOrCreate_missing: "FirstOrCreate_missing e s a k = (r, s') \<Longrightarrow> emitted s' = emitted s"
  by (auto simp: FirstOrCreate_missing_def Let_def split: if_splits sum.splits list.splits
     dest!: emitted_Create_post)

lemma emitted_createMissingPostRecord: "createMissingPostRecord e s u = (r, s') \<Longrightarrow> emitted s' = emitted s"
  by (auto simp: createMissingPostRecord_def Let_def split: if_splits sum.splits prod.splits
     dest!: emitted_GetUserOrMissing emitted_FirstOrCreate_missing)

lemma emitted_GetPostOrMissing: "GetPostOrMissing e s u = (r, s') \<Longrightarrow> emitted s' = emitted s"
  by (auto simp: GetPostOrMissing_def Let_def split: if_splits sum.splits prod.splits
     dest!: emitted_createMissingPostRecord)


lemma emitted_Create_vote: "Create_vote e s u = (r, s') \<Longrightarrow> emitted s' = emitted s"
  by (auto simp: Create_vote_def Let_def split: if_splits)

lemma emitted_Update_up_count: "Update_up_count e s p d = (r, s') \<Longrightarrow> emitted s' = emitted s"
  by (auto simp: Update_up_count_def split: if_splits)

lemma emitted_Delete_vote: "Delete_vote e s v = (r, s') \<Longrightarrow> emitted s' = emitted s"
  by (auto simp: Delete_vote_def split: if_splits)

lemma emitted_Transaction:
  assumes "Transaction e s f = (r, s')" and "\<And>t r' t'. f t = (r', t') \<Longrightarrow> emitted t' = emitted t"
  shows "emitted s' = emitted s"
  using assms(1) assms(2)[of "tickup s"]
  by (auto simp: Transaction_def split: if_splits prod.splits option.splits)

lemma emitted_handleRecordCreateFeedLike:
  "handleRecordCreateFeedLike e s subj cr evt op = (r, s') \<Longrightarrow> emitted s' = emitted s"
  by (auto simp: handleRecordCreateFeedLike_def addNewVoteNotification_def
      split: option.splits prod.splits sum.splits
      dest!: emitted_GetPostOrMissing emitted_LookupUser emitted_Create_vote emitted_Update_up_count
        emitted_notify)

lemma emitted_handleRecordDeleteFeedLike:
  "handleRecordDeleteFeedLike e s evt op = (r, s') \<Longrightarrow> emitted s' = emitted s"
  by (auto simp: handleRecordDeleteFeedLike_def Let_def
      split: if_splits option.splits prod.splits
      dest!: emitted_Transaction emitted_Delete_vote emitted_Update_up_count)

lemma emitted_Create_follow: "Create_follow e s u = (r, s') \<Longrightarrow> emitted s' = emitted s"
  by (auto simp: Create_follow_def Let_def split: if_splits)

lemma emitted_Create_repost: "Create_repost e s u = (r, s') \<Longrightarrow> emitted s' = emitted s"
  by (auto simp: Create_repost_def Let_def split: if_splits)

lemma emitted_handleRecordDeleteGraphFollow:
  "handleRecordDeleteGraphFollow e s evt op = (r, s') \<Longrightarrow> emitted s' = emitted s"
  by (auto simp: handleRecordDeleteGraphFollow_def split: if_splits)

lemma emitted_handleRecordCreateGraphFollow:
  "handleRecordCreateGraphFollow e s subj evt op = (r, s') \<Longrightarrow> emitted s' = emitted s"
  by (auto simp: handleRecordCreateGraphFollow_def
      split: option.splits prod.splits sum.splits if_splits
      dest!: emitted_LookupUserByDid emitted_createMissingUserRecord emitted_Create_follow emitted_notify)

lemma emitted_resolve_reply: "resolve_reply e s reply = (r, s') \<Longrightarrow> emitted s' = emitted s"
  by (auto simp: resolve_reply_def split: option.splits prod.splits sum.splits
      dest!: emitted_GetPostOrMissing)

lemma emitted_resolve_mentions: "resolve_mentions e s ens acc = (r, s') \<Longrightarrow> emitted s' = emitted s"
proof (induction ens arbitrary: s acc)
  case Nil
  then show ?case by simp
next
  case (Cons en ens)
  then show ?case
    by (auto split: if_splits prod.splits sum.splits dest!: emitted_GetUserOrMissing)
qed

lemma emitted_AddMention_loop: "AddMention_loop e s fp ms = (r, s') \<Longrightarrow> emitted s' = emitted s"
proof (induction ms arbitrary: s)
  case Nil
  then show ?case by simp
next
  case (Cons m ms)
  then show ?case
    by (auto split: prod.splits option.splits dest!: emitted_notify)
qed

lemma emitted_addNewPostNotification:
  "addNewPostNotification e s reply fp ms = (r, s') \<Longrightarrow> emitted s' = emitted s"
  by (auto simp: addNewPostNotification_def split: option.splits prod.splits sum.splits
      dest!: emitted_AddMention_loop emitted_GetPost emitted_notify)

lemma emitted_handleRecordCreateFeedPost:
  "handleRecordCreateFeedPost e s user rkey rcid ens reply = (r, s') \<Longrightarrow> emitted s' = emitted s"
  by (auto simp: handleRecordCreateFeedPost_def Let_def
      split: option.splits prod.splits sum.splits if_splits
      dest!: emitted_resolve_reply emitted_resolve_mentions emitted_Upsert_post emitted_Create_post
        emitted_addNewPostNotification)

lemma emitted_handleRecordCreate:
  "handleRecordCreate e s evt op = (r, s') \<Longrightarrow> emitted s' = emitted s"
  by (auto simp: handleRecordCreate_def
      split: bsky_record.splits option.splits prod.splits sum.splits
      dest!: emitted_handleRecordCreateFeedPost emitted_GetPostOrMissing emitted_LookupUser
        emitted_Create_repost emitted_notify emitted_handleRecordCreateFeedLike
        emitted_handleRecordCreateGraphFollow)

lemma emitted_handleRecordDelete:
  "handleRecordDelete e s evt op = (r, s') \<Longrightarrow> emitted s' = emitted s"
  by (auto simp: handleRecordDelete_def Let_def
      split: if_splits prod.splits sum.splits
      dest!: emitted_LookupUser emitted_GetPost emitted_handleRecordDeleteFeedLike
        emitted_handleRecordDeleteGraphFollow)

lemma emitted_handleRecordUpdate:
  "handleRecordUpdate e s evt op = (r, s') \<Longrightarrow> emitted s' = emitted s"
  by (auto simp: handleRecordUpdate_def Let_def
      split: bsky_record.splits if_splits option.splits prod.splits sum.splits list.splits
      dest!: emitted_LookupUser emitted_GetPostOrMissing emitted_handleRecordDeleteGraphFollow
        emitted_handleRecordCreateGraphFollow)

lemma emitted_crawlAtUriRef: "crawlAtUriRef e s uri = (r, s') \<Longrightarrow> emitted s' = emitted s"
  by (auto simp: crawlAtUriRef_def split: prod.splits sum.splits dest!: emitted_GetUserOrMissing)

lemma emitted_snd_GetUserOrMissing: "emitted (snd (GetUserOrMissing e s d)) = emitted s"
  by (cases "GetUserOrMissing e s d") (auto dest!: emitted_GetUserOrMissing)

lemma emitted_snd_crawlAtUriRef: "emitted (snd (crawlAtUriRef e s d)) = emitted s"
  by (cases "crawlAtUriRef e s d") (auto dest!: emitted_crawlAtUriRef)

lemma emitted_crawl_mentions: "emitted (crawl_mentions e s ens) = emitted s"
  by (induction ens arbitrary: s) (auto simp: emitted_snd_GetUserOrMissing)

lemma emitted_crawlRecordReferences:
  "crawlRecordReferences e s op = (r, s') \<Longrightarrow> emitted s' = emitted s"
  by (auto simp: crawlRecordReferences_def Let_def emitted_crawl_mentions
      emitted_snd_GetUserOrMissing emitted_snd_crawlAtUriRef
      split: bsky_record.splits option.splits)

lemma emitted_handleRepoOp: "handleRepoOp e s evt op = (r, s') \<Longrightarrow> emitted s' = emitted s"
  by (auto simp: handleRepoOp_def split: if_splits prod.splits option.splits
      dest!: emitted_handleRecordCreate emitted_handleRecordDelete emitted_handleRecordUpdate
        emitted_crawlRecordReferences)

lemma emitted_ops_loop: "ops_loop e evt s ops acc = (r, s') \<Longrightarrow> emitted s' = emitted s"
proof (induction ops arbitrary: s acc)
  case Nil
  then show ?case by simp
next
  case (Cons op ops)
  then show ?case
    by (auto simp: Let_def split: prod.splits option.splits if_splits dest!: emitted_handleRepoOp)
qed


lemma ops_loop_outops:
  "ops_loop e evt s ops acc = (Inr outops, s') \<Longrightarrow>
     outops = (if ops = [] then acc
               else Some ((case acc of None \<Rightarrow> [] | Some xs \<Rightarrow> xs)
                 @ map (\<lambda>op. \<lparr>ro_Path = op_Collection op @ ''/'' @ op_Rkey op,
                               ro_Action = op_Kind op, ro_Cid = op_RecCid op\<rparr>) ops))"
proof (induction ops arbitrary: s acc)
  case Nil
  then show ?case by simp
next
  case (Cons op ops)
  let ?o = "\<lparr>ro_Path = op_Collection op @ ''/'' @ op_Rkey op,
             ro_Action = op_Kind op, ro_Cid = op_RecCid op\<rparr>"
  from Cons.prems obtain s1 where "ops_loop e evt s1 ops (go_append acc ?o) = (Inr outops, s')"
    by (auto simp: Let_def split: prod.splits option.splits if_splits)
  from Cons.IH[OF this] show ?case
    by (cases acc; cases ops) auto
qed

lemma ops_loop_spec_ops:
  "ops_loop e evt s ops None = (Inr outops, s') \<Longrightarrow> outops = spec_ops ops"
  by (drule ops_loop_outops) (simp add: spec_ops_def)

lemma go_len_spec_ops: "go_len (spec_ops ops) = length ops"
  by (simp add: spec_ops_def)

lemma DidForUser_actor:
  "DidForUser e s u = (Inr did, s') \<Longrightarrow> actors s' = actors s \<and> (\<exists>a\<in>set (actors s). ai_Uid a = u \<and> ai_Did a = did)"
  by (auto simp: DidForUser_def tickup_def filter_eq_Cons_iff split: if_splits list.splits)

lemma AddEvent_result:
  "AddEvent e s xe = (r, s') \<Longrightarrow> emitted s' = emitted s @ [xe] \<and> actors s' = actors s"
  by (auto simp: AddEvent_def tickup_def split: if_splits)

text \<open>
  C4. Whenever \<^verbatim>\<open>HandleRepoEvent\<close> returns without error, and whenever it hands anything to
  the broadcaster at all, it has handed it exactly one envelope, and in it: \<open>tooBig\<close> is set exactly when the repo slice has more than 1,000,000 bytes
  or the event has more than 200 operations; then \<open>blocks\<close> and \<open>ops\<close> are \<^verbatim>\<open>nil\<close>,
  otherwise \<open>blocks\<close> is the repo slice and \<open>ops\<close> are the operations of the event; in both
  cases \<open>repo\<close> is the DID stored for the user of the event and \<open>prev\<close>, \<open>rev\<close>, \<open>since\<close>
  and \<open>commit\<close> are those of the event.
\<close>

theorem HandleRepoEvent_truncation:
  assumes "HandleRepoEvent e s evt = (r, s')"
    and "r = None \<or> emitted s' \<noteq> emitted s"
  shows "\<exists>c. emitted s' = emitted s @ [\<lparr>xe_RepoCommit = c, xe_PrivUid = ev_User evt\<rparr>]
    \<and> c_TooBig c = (go_len (ev_RepoSlice evt) > 1000000 \<or> length (ev_Ops evt) > 200)
    \<and> c_Blocks c = (if c_TooBig c then None else ev_RepoSlice evt)
    \<and> c_Ops c = (if c_TooBig c then None else spec_ops (ev_Ops evt))
    \<and> (\<exists>a\<in>set (actors s'). ai_Uid a = ev_User evt \<and> c_Repo c = ai_Did a)
    \<and> c_Prev c = ev_OldRoot evt \<and> c_Rev c = ev_Rev evt \<and> c_Since c = ev_Since evt
    \<and> c_Commit c = ev_NewRoot evt"
proof (cases "ops_loop e evt s (ev_Ops evt) None")
  case (Pair res s1)
  note loop = this
  have em1: "emitted s1 = emitted s"
    using loop by (rule emitted_ops_loop)
  show ?thesis
  proof (cases res)
    case (Inl x)
    with loop assms em1 show ?thesis
      by (auto simp: HandleRepoEvent_def)
  next
    case (Inr outops)
    have outops: "outops = spec_ops (ev_Ops evt)"
      using loop Inr by (auto dest: ops_loop_spec_ops)
    obtain rd s2 where did: "DidForUser e s1 (ev_User evt) = (rd, s2)"
      by (cases "DidForUser e s1 (ev_User evt)")
    have em2: "emitted s2 = emitted s"
      using emitted_DidForUser[OF did] em1 by simp
    show ?thesis
    proof (cases rd)
      case (Inl x)
      with loop \<open>res = Inr outops\<close> did assms em2 show ?thesis
        by (auto simp: HandleRepoEvent_def)
    next
      case (Inr d)
      note dinr = this
      from DidForUser_actor[OF did[unfolded dinr]]
      obtain a where a: "a \<in> set (actors s1)" "ai_Uid a = ev_User evt" "ai_Did a = d"
        and act2: "actors s2 = actors s1" by auto
      let ?big = "go_len (ev_RepoSlice evt) > MaxEventSliceLength \<or> go_len outops > MaxOpsSliceLength"
      let ?c = "\<lparr>c_Repo = d, c_Prev = ev_OldRoot evt,
                 c_Blocks = (if ?big then None else ev_RepoSlice evt),
                 c_Rev = ev_Rev evt, c_Since = ev_Since evt, c_Commit = ev_NewRoot evt,
                 c_Time = now e, c_Ops = (if ?big then None else outops), c_TooBig = ?big\<rparr>"
      let ?xe = "\<lparr>xe_RepoCommit = ?c, xe_PrivUid = ev_User evt\<rparr>"
      obtain ra s3 where add: "AddEvent e s2 ?xe = (ra, s3)"
        by (cases "AddEvent e s2 ?xe")
      have s': "s' = s3"
        using assms(1) loop \<open>res = Inr outops\<close> did dinr add
        by (auto simp: HandleRepoEvent_def Let_def split: option.splits)
      from AddEvent_result[OF add] have em3: "emitted s3 = emitted s @ [?xe]"
        and act3: "actors s3 = actors s1" using em2 act2 by auto
      show ?thesis
        apply (rule exI[of _ ?c])
        using a em3 act3 s' outops
        by (auto simp: MaxEventSliceLength_def MaxOpsSliceLength_def go_len_spec_ops)
    qed
  qed
qed

lemmas ix_defs = HandleRepoEvent_def handleRepoOp_def
    EvtKindCreateRecord_def EvtKindDeleteRecord_def EvtKindUpdateRecord_def
    handleRecordCreate_def handleRecordCreateFeedLike_def handleRecordDeleteFeedLike_def
    handleRecordDelete_def Transaction_def rollback_def Delete_vote_def
    GetPostOrMissing_def failing_def tickup_def posts_by_uri_def
    LookupUser_def Create_vote_def Update_up_count_def
    addNewVoteNotification_def notify_def crawlRecordReferences_def crawlAtUriRef_def
    GetUserOrMissing_def LookupUserByDid_def DidForUser_def AddEvent_def Let_def
    MaxEventSliceLength_def MaxOpsSliceLength_def

lemmas W_defs = W_like_op_def W_event_def W_env_def W_ParseAtUri_def W_state_def W_actor_def
    W_post_def

text \<open>
  The theorem at an event of V with the like of P and a repo slice of 1,000,001 bytes: the
  envelope is emitted with \<open>tooBig\<close>, without blocks and operations.
\<close>

theorem HandleRepoEvent_truncation_witness:
  "\<exists>c. emitted (snd (HandleRepoEvent W_env W_state (W_event [W_like_op] (Some (replicate 1000001 0)))))
          = [\<lparr>xe_RepoCommit = c, xe_PrivUid = 2\<rparr>]
     \<and> c_TooBig c \<and> c_Blocks c = None \<and> c_Ops c = None \<and> c_Prev c = Some ''bafyold''
     \<and> c_Rev c = ''r1'' \<and> c_Since c = Some ''r0'' \<and> c_Commit c = ''bafynew''"
proof -
  let ?evt = "W_event [W_like_op] (Some (replicate 1000001 0))"
  let ?r = "HandleRepoEvent W_env W_state ?evt"
  have "emitted (snd ?r) \<noteq> emitted W_state"
    by (simp add: ix_defs W_defs)
  then have run: "fst ?r = None \<or> emitted (snd ?r) \<noteq> emitted W_state" ..
  have "?r = (fst ?r, snd ?r)" by simp
  from HandleRepoEvent_truncation[OF this run] obtain c where
    "emitted (snd ?r) = emitted W_state @ [\<lparr>xe_RepoCommit = c, xe_PrivUid = ev_User ?evt\<rparr>]"
    "c_TooBig c = (go_len (ev_RepoSlice ?evt) > 1000000 \<or> length (ev_Ops ?evt) > 200)"
    "c_Blocks c = (if c_TooBig c then None else ev_RepoSlice ?evt)"
    "c_Ops c = (if c_TooBig c then None else spec_ops (ev_Ops ?evt))"
    "c_Prev c = ev_OldRoot ?evt" "c_Rev c = ev_Rev ?evt" "c_Since c = ev_Since ?evt"
    "c_Commit c = ev_NewRoot ?evt"
    by blast
  then show ?thesis
    by (intro exI[of _ c]) (simp add: W_event_def W_state_def)
qed

subsection \<open>Actor initialisation\<close>

lemma Upsert_actor_ok:
  assumes "Upsert_actor e s ai = (None, s')"
  shows "follows s' = follows s \<and> next_follow_id s' = next_follow_id s
     \<and> (\<exists>a\<in>set (actors s'). ai_Uid a = ai_Uid ai \<and> ai_Did a = ai_Did ai \<and> ai_PDS a = ai_PDS ai
           \<and> ai_Handle a = ai_Handle ai)"
proof (cases "list_ex (\<lambda>a. ai_Uid a = ai_Uid ai) (actors s)")
  case True
  then obtain a where a: "a \<in> set (actors s)" "ai_Uid a = ai_Uid ai"
    by (auto simp: list_ex_iff)
  from assms True have s': "s' = (tickup s)\<lparr>actors := map (\<lambda>a. if ai_Uid a = ai_Uid ai
      then ai\<lparr>ai_ID := ai_ID a\<rparr> else a) (actors s)\<rparr>"
    by (simp add: Upsert_actor_def split: if_splits)
  have "ai\<lparr>ai_ID := ai_ID a\<rparr> \<in> set (actors s')"
    unfolding s' using a by (simp add: image_iff) (rule bexI[of _ a], simp_all)
  then have "\<exists>b\<in>set (actors s'). ai_Uid b = ai_Uid ai \<and> ai_Did b = ai_Did ai \<and> ai_PDS b = ai_PDS ai
           \<and> ai_Handle b = ai_Handle ai"
    by (rule bexI[rotated]) simp
  then show ?thesis
    by (simp add: s' tickup_def)
next
  case False
  with assms have s': "s' = (tickup s)\<lparr>actors := actors s @ [ai\<lparr>ai_ID := next_actor_id s\<rparr>],
      next_actor_id := Suc (next_actor_id s)\<rparr>"
    by (simp add: Upsert_actor_def split: if_splits)
  show ?thesis
    by (simp add: s' tickup_def)
qed

lemma Create_follow_ok:
  "Create_follow e s fr = (Inr row, s') \<Longrightarrow>
     follows s' = follows s @ [row] \<and> row = fr\<lparr>fr_ID := next_follow_id s\<rparr> \<and> actors s' = actors s"
  by (auto simp: Create_follow_def tickup_def Let_def split: if_splits)

text \<open>
  C9. When \<^verbatim>\<open>handleInitActor\<close> returns without error, the actor table has a row for the
  user of the event, with the DID of the operation, and the follow table has gained exactly
  one row, whose follower and target are both that user.
\<close>

theorem handleInitActor_self_follow:
  assumes "handleInitActor e s evt op = (None, s')"
  shows "(\<exists>fr. follows s' = follows s @ [fr] \<and> fr_Follower fr = ev_User evt
             \<and> fr_Target fr = ev_User evt)
       \<and> (\<exists>a\<in>set (actors s'). ai_Uid a = ev_User evt
             \<and> (\<exists>ai. op_ActorInfo op = Some ai \<and> ai_Did a = rai_Did ai))"
  using assms
  by (auto simp: handleInitActor_def split: option.splits prod.splits sum.splits
      dest!: Upsert_actor_ok Create_follow_ok)

theorem handleInitActor_self_follow_witness:
  "(\<exists>fr. follows (snd (handleInitActor W_env W_state W_init_event W_init_op)) = follows W_state @ [fr]
         \<and> fr_Follower fr = 3 \<and> fr_Target fr = 3)
   \<and> fst (handleInitActor W_env W_state W_init_event W_init_op) = None"
proof -
  let ?r = "handleInitActor W_env W_state W_init_event W_init_op"
  have ok: "fst ?r = None"
    by (simp add: handleInitActor_def Upsert_actor_def Create_follow_def W_defs W_init_op_def
        W_init_event_def failing_def tickup_def Let_def)
  then have "?r = (None, snd ?r)"
    by (metis prod.collapse)
  from handleInitActor_self_follow[OF this] ok show ?thesis
    by (simp add: W_init_event_def)
qed

subsection \<open>Atomicity of the like handlers\<close>

text \<open>The like delete is atomic: when it returns an error, no table has changed.\<close>

lemma handleRecordDeleteFeedLike_atomic:
  "handleRecordDeleteFeedLike e s evt op = (Some x, s') \<Longrightarrow>
     votes s' = votes s \<and> posts s' = posts s"
  by (auto simp: handleRecordDeleteFeedLike_def Transaction_def rollback_def tickup_def Let_def
      split: if_splits prod.splits option.splits)

text \<open>
  C5. The claim: the insert of the VoteRecord and the adjustment of the up-count are atomic,
  for the create as for the delete. The code: the delete runs in \<^verbatim>\<open>db.Transaction\<close>, the
  create does not. In scenario S3, when the update of the up-count fails, the create returns
  the error, the VoteRecord of V stays in the table and the up-count of P stays 0.
\<close>

theorem like_create_not_atomic:
  "handleRecordCreateFeedLike (W_env_fail 3) W_state (Some ''at://did:plc:a/app.bsky.feed.post/p1'')
       ''2023-06-01'' (W_event [W_like_op] None) W_like_op
     = (Some DBError,
        W_state\<lparr>votes := [\<lparr>vr_ID = 1, vr_Voter = 2, vr_Post = 1, vr_Created = ''2023-06-01'',
                             vr_Rkey = ''l1'', vr_Cid = ''bafylike''\<rparr>],
                 next_vote_id := 2, tick := 4\<rparr>)"
  by (simp add: ix_defs W_defs W_env_fail_def)

subsection \<open>The fetch pipeline\<close>

lemma accepted_replayed: "accepted e i js \<Longrightarrow> replayed e i js = js"
  by (induction js arbitrary: i) auto

lemma list_all_replay_calls: "list_all is_replay (map (replay_call pds ai) js)"
  by (induction js) (auto simp: replay_call_def)

lemma catchup_loop_calls:
  "catchup_loop e s pds ai i js
     = (\<not> accepted e i js, s\<lparr>calls := calls s @ map (replay_call pds ai) (replayed e i js)\<rparr>)"
proof (induction js arbitrary: s i)
  case Nil
  then show ?case by simp
next
  case (Cons j js)
  show ?case
    by (cases "HandleExternalUserEvent e i j") (simp_all add: Cons replay_call_def Let_def)
qed

text \<open>What \<^verbatim>\<open>FetchAndIndexRepo\<close> does from the fetch on, by the outcome of each call.\<close>

lemma fetch_and_import_cases:
  assumes "fetch_and_import e s ai rv = (r, s')"
  shows "(case SyncGetRepo e 0 (ai_Did ai) rv of
            Inl y \<Rightarrow> calls s' = calls s @ [CallSyncGetRepo (ai_Did ai) rv]
                     \<and> r = Some (wrap ''failed to fetch repo (did=%s,rev=%s,host=%s): %w'' y)
          | Inr repo \<Rightarrow>
             (case ImportNewRepo e 0 (ai_Uid ai) (ai_Did ai) repo (Some rv) of
                None \<Rightarrow> calls s' = calls s @ [CallSyncGetRepo (ai_Did ai) rv,
                                               CallImportNewRepo (ai_Uid ai) (ai_Did ai) repo (Some rv)]
                        \<and> r = None
              | Some x \<Rightarrow>
                  if ipld_IsNotFound x
                  then calls s' = calls s @ [CallSyncGetRepo (ai_Did ai) rv,
                                             CallImportNewRepo (ai_Uid ai) (ai_Did ai) repo (Some rv),
                                             CallSyncGetRepo (ai_Did ai) []]
                         @ (case SyncGetRepo e 1 (ai_Did ai) [] of
                              Inl y \<Rightarrow> []
                            | Inr repo2 \<Rightarrow> [CallImportNewRepo (ai_Uid ai) (ai_Did ai) repo2 None])
                       \<and> r = (case SyncGetRepo e 1 (ai_Did ai) [] of
                                Inl y \<Rightarrow> Some (wrap ''failed to fetch repo (did=%s,rev=%s,host=%s): %w'' y)
                              | Inr repo2 \<Rightarrow>
                                  (case ImportNewRepo e 1 (ai_Uid ai) (ai_Did ai) repo2 None of
                                     None \<Rightarrow> None
                                   | Some y \<Rightarrow> Some (wrap ''failed to import backup repo (%s): %w'' y)))
                  else calls s' = calls s @ [CallSyncGetRepo (ai_Did ai) rv,
                                             CallImportNewRepo (ai_Uid ai) (ai_Did ai) repo (Some rv)]
                       \<and> r = Some (wrap ''importing fetched repo (curRev: %s): %w'' x)))"
  using assms
  by (auto simp: fetch_and_import_def fetchRepo_def repomgr_ImportNewRepo_def Let_def
      split: sum.splits option.splits if_splits)


lemma FetchAndIndexRepo_body_eq:
  "FetchAndIndexRepo_body e s job pds rv =
     (if \<not> job_initScrape job \<and> job_catchup job \<noteq> []
         \<and> (c_Since (hd (job_catchup job)) = None \<or> c_Since (hd (job_catchup job)) = Some rv)
      then (if accepted e 0 (job_catchup job)
            then (None, s\<lparr>calls := calls s @ map (replay_call pds (job_act job)) (job_catchup job)\<rparr>)
            else fetch_and_import e
                   (s\<lparr>calls := calls s @ map (replay_call pds (job_act job))
                                            (replayed e 0 (job_catchup job))\<rparr>)
                   (job_act job) rv)
      else fetch_and_import e s (job_act job) rv)"
  by (auto simp: FetchAndIndexRepo_body_def catchup_loop_calls accepted_replayed Let_def)

lemma FetchAndIndexRepo_body_shape:
  assumes "FetchAndIndexRepo_body e s job pds rv = (r, s')"
  shows "(\<exists>pre. list_all is_replay pre \<and> calls s' = calls s @ pre \<and> r = None)
       \<or> (\<exists>pre s1. list_all is_replay pre \<and> calls s1 = calls s @ pre
             \<and> fetch_and_import e s1 (job_act job) rv = (r, s'))"
proof (cases "\<not> job_initScrape job \<and> job_catchup job \<noteq> []
         \<and> (c_Since (hd (job_catchup job)) = None \<or> c_Since (hd (job_catchup job)) = Some rv)")
  case True
  note linked = this
  show ?thesis
  proof (cases "accepted e 0 (job_catchup job)")
    case True
    with linked assms have "calls s' = calls s @ map (replay_call pds (job_act job)) (job_catchup job)"
      and "r = None"
      by (auto simp: FetchAndIndexRepo_body_eq)
    then show ?thesis
      using list_all_replay_calls by blast
  next
    case False
    let ?s1 = "s\<lparr>calls := calls s @ map (replay_call pds (job_act job))
                                         (replayed e 0 (job_catchup job))\<rparr>"
    from False linked assms have "fetch_and_import e ?s1 (job_act job) rv = (r, s')"
      by (simp add: FetchAndIndexRepo_body_eq)
    moreover have "calls ?s1 = calls s @ map (replay_call pds (job_act job)) (replayed e 0 (job_catchup job))"
      by simp
    ultimately show ?thesis
      using list_all_replay_calls by blast
  qed
next
  case False
  with assms have "fetch_and_import e s (job_act job) rv = (r, s')"
    by (simp add: FetchAndIndexRepo_body_eq)
  moreover have "list_all is_replay []" "calls s = calls s @ []"
    by simp_all
  ultimately show ?thesis
    by blast
qed

lemma calls_tickup [simp]: "calls (tickup s) = calls s"
  by (simp add: tickup_def)

lemma FetchAndIndexRepo_shape:
  assumes "FetchAndIndexRepo e s job = (r, s')"
  shows "(\<exists>pre. list_all is_replay pre \<and> calls s' = calls s @ pre)
       \<or> (\<exists>pre s1 rv. list_all is_replay pre \<and> calls s1 = calls s @ pre
             \<and> fetch_and_import e s1 (job_act job) rv = (r, s'))"
proof -
  have stop: "?thesis" if "calls s' = calls s"
  proof -
    have "list_all is_replay []" by simp
    with that show ?thesis by (intro disjI1 exI[of _ "[]"]) simp
  qed
  have body: "?thesis" if "FetchAndIndexRepo_body e (tickup s) job pds rv = (r, s')" for pds rv
    using FetchAndIndexRepo_body_shape[OF that] by auto
  from assms consider "calls s' = calls s"
    | pds rv where "FetchAndIndexRepo_body e (tickup s) job pds rv = (r, s')"
    by (auto simp: FetchAndIndexRepo_def Let_def
        split: if_splits list.splits prod.splits option.splits)
  then show ?thesis
    by cases (fact stop, fact body)
qed

text \<open>
  C7. Whenever \<^verbatim>\<open>FetchAndIndexRepo\<close> has called \<^verbatim>\<open>ImportNewRepo\<close> on a fetched repository
  and that import failed with \<open>x\<close>: if \<open>x\<close> is a missing-block error, what follows is one
  fetch with \<open>since = ""\<close> and, when that fetch delivers a repository, one import of it, and
  nothing more, whatever that import returns; if \<open>x\<close> is any other error, nothing follows
  and \<open>x\<close> is returned (wrapped) to the caller.
\<close>

theorem FetchAndIndexRepo_import_retry:
  assumes run: "FetchAndIndexRepo e s job = (r, s')"
    and imp: "CallImportNewRepo uid did repo (Some rv) \<in> set (drop (length (calls s)) (calls s'))"
    and bad: "ImportNewRepo e 0 uid did repo (Some rv) = Some x"
  shows "\<exists>pre. list_all is_replay pre \<and>
     (if ipld_IsNotFound x
      then calls s' = calls s @ pre
               @ [CallSyncGetRepo did rv, CallImportNewRepo uid did repo (Some rv), CallSyncGetRepo did []]
               @ (case SyncGetRepo e 1 did [] of
                    Inl y \<Rightarrow> []
                  | Inr repo2 \<Rightarrow> [CallImportNewRepo uid did repo2 None])
           \<and> r = (case SyncGetRepo e 1 did [] of
                    Inl y \<Rightarrow> Some (wrap ''failed to fetch repo (did=%s,rev=%s,host=%s): %w'' y)
                  | Inr repo2 \<Rightarrow>
                      (case ImportNewRepo e 1 uid did repo2 None of
                         None \<Rightarrow> None
                       | Some y \<Rightarrow> Some (wrap ''failed to import backup repo (%s): %w'' y)))
      else calls s' = calls s @ pre @ [CallSyncGetRepo did rv, CallImportNewRepo uid did repo (Some rv)]
           \<and> r = Some (wrap ''importing fetched repo (curRev: %s): %w'' x))"
proof -
  have no_imp: "CallImportNewRepo uid did repo (Some rv) \<notin> set pre" if "list_all is_replay pre" for pre
    using that by (auto simp: list_all_iff)
  from FetchAndIndexRepo_shape[OF run] show ?thesis
  proof
    assume "\<exists>pre. list_all is_replay pre \<and> calls s' = calls s @ pre"
    with imp no_imp show ?thesis by auto
  next
    assume "\<exists>pre s1 rv. list_all is_replay pre \<and> calls s1 = calls s @ pre
             \<and> fetch_and_import e s1 (job_act job) rv = (r, s')"
    then obtain pre s1 rv0 where pre: "list_all is_replay pre" and s1: "calls s1 = calls s @ pre"
      and fi: "fetch_and_import e s1 (job_act job) rv0 = (r, s')"
      by blast
    let ?ai = "job_act job"
    note cases = fetch_and_import_cases[OF fi]
    show ?thesis
    proof (cases "SyncGetRepo e 0 (ai_Did ?ai) rv0")
      case (Inl y)
      with cases s1 imp no_imp[OF pre] show ?thesis by auto
    next
      case (Inr repo0)
      note fetched = this
      show ?thesis
      proof (cases "ImportNewRepo e 0 (ai_Uid ?ai) (ai_Did ?ai) repo0 (Some rv0)")
        case None
        with cases fetched s1 imp no_imp[OF pre] bad show ?thesis by auto
      next
        case (Some x0)
        have same: "uid = ai_Uid ?ai \<and> did = ai_Did ?ai \<and> repo = repo0 \<and> rv = rv0"
          using cases fetched Some s1 imp no_imp[OF pre]
          by (auto split: if_splits sum.splits)
        with bad Some have x: "x0 = x" by simp
        show ?thesis
          using cases fetched Some s1 pre same x
          by (intro exI[of _ pre]) (auto split: if_splits)
      qed
    qed
  qed
qed


lemmas fetch_defs = FetchAndIndexRepo_def FetchAndIndexRepo_body_def fetch_and_import_def
    fetchRepo_def repomgr_ImportNewRepo_def failing_def tickup_def Let_def

lemmas S6_defs = S6_job_def S6_env_def S5_job_def W_commit_def W_env_def W_state_def W_actor_def

text \<open>
  The theorem at scenario S6: the import of the first fetch misses a block; one fetch with
  \<open>since = ""\<close> and one import follow, and the job completes.
\<close>

theorem FetchAndIndexRepo_import_retry_witness:
  "\<exists>pre. list_all is_replay pre \<and>
     calls (snd (FetchAndIndexRepo S6_env W_state S6_job))
       = calls W_state @ pre @ [CallSyncGetRepo ''did:plc:v'' ''r0'',
                                CallImportNewRepo 2 ''did:plc:v'' [] (Some ''r0''),
                                CallSyncGetRepo ''did:plc:v'' [],
                                CallImportNewRepo 2 ''did:plc:v'' [] None]
     \<and> fst (FetchAndIndexRepo S6_env W_state S6_job) = None"
proof -
  let ?r = "FetchAndIndexRepo S6_env W_state S6_job"
  have run: "?r = (fst ?r, snd ?r)" by simp
  have imp: "CallImportNewRepo 2 ''did:plc:v'' [] (Some ''r0'')
      \<in> set (drop (length (calls W_state)) (calls (snd ?r)))"
    by (simp add: fetch_defs S6_defs)
  have bad: "ImportNewRepo S6_env 0 2 ''did:plc:v'' [] (Some ''r0'') = Some IpldErrNotFound"
    by (simp add: S6_defs)
  from FetchAndIndexRepo_import_retry[OF run imp bad] show ?thesis
    by (simp add: S6_defs)
qed

lemma fetch_and_import_fetches:
  assumes "fetch_and_import e s ai rv = (r, s')"
  shows "\<exists>post. calls s' = calls s @ CallSyncGetRepo (ai_Did ai) rv # post
           \<and> filter is_fetch post
               = (if missing_block e ai rv then [CallSyncGetRepo (ai_Did ai) []] else [])"
  using fetch_and_import_cases[OF assms]
  by (auto simp: missing_block_def split: sum.splits option.splits if_splits)

text \<open>
  C3, the claim as stated, at scenario S6 (the job is no initial scrape, the buffer is not
  empty, the \<open>since\<close> of its first event differs from the stored revision): two fetches
  follow, not exactly one.
\<close>

theorem FetchAndIndexRepo_two_fetches:
  "\<not> job_initScrape S6_job \<and> job_catchup S6_job \<noteq> []
   \<and> c_Since (hd (job_catchup S6_job)) = Some ''rX''
   \<and> GetRepoRev S6_env (ai_Uid (job_act S6_job)) = (''r0'', None)
   \<and> filter is_fetch (calls (snd (FetchAndIndexRepo S6_env W_state S6_job)))
       = [CallSyncGetRepo ''did:plc:v'' ''r0'', CallSyncGetRepo ''did:plc:v'' []]"
  by (simp add: fetch_defs S6_defs)

text \<open>
  C3, amended. For a job that is no initial scrape and has a non-empty buffer, once the PDS
  row and the stored revision \<open>rv\<close> are read: if the \<open>since\<close> of the first buffered event is
  absent or equals \<open>rv\<close>, the buffered events are handed to \<^verbatim>\<open>HandleExternalUserEvent\<close> in
  order, up to the first one it rejects; when it accepts them all, the job returns without
  error and without any fetch. Otherwise (the \<open>since\<close> differs, or an event was rejected) the
  fetch \<^verbatim>\<open>sync.getRepo(did, since = rv)\<close> follows, and the only other fetch there can be is
  the one with \<open>since = ""\<close> after an import that missed a block.
\<close>

theorem FetchAndIndexRepo_catchup:
  assumes job: "\<not> job_initScrape job" "job_catchup job \<noteq> []"
    and pds: "\<not> failing e s" "filter (\<lambda>p. pds_ID p = ai_PDS (job_act job)) (pdss s) = pds # ps"
    and rv: "GetRepoRev e (ai_Uid (job_act job)) = (rv, x)"
            "x = None \<or> (\<exists>y. x = Some y \<and> isNotFound y)"
    and run: "FetchAndIndexRepo e s job = (r, s')"
  shows "if c_Since (hd (job_catchup job)) = None \<or> c_Since (hd (job_catchup job)) = Some rv
         then (if accepted e 0 (job_catchup job)
               then r = None
                    \<and> calls s' = calls s @ map (replay_call pds (job_act job)) (job_catchup job)
               else (\<exists>post. calls s' = calls s
                        @ map (replay_call pds (job_act job)) (replayed e 0 (job_catchup job))
                        @ CallSyncGetRepo (ai_Did (job_act job)) rv # post
                      \<and> filter is_fetch post
                          = (if missing_block e (job_act job) rv
                             then [CallSyncGetRepo (ai_Did (job_act job)) []] else [])))
         else (\<exists>post. calls s' = calls s @ CallSyncGetRepo (ai_Did (job_act job)) rv # post
                 \<and> filter is_fetch post
                     = (if missing_block e (job_act job) rv
                        then [CallSyncGetRepo (ai_Did (job_act job)) []] else []))"
proof -
  from pds rv run have body: "FetchAndIndexRepo_body e (tickup s) job pds rv = (r, s')"
    by (auto simp: FetchAndIndexRepo_def Let_def)
  show ?thesis
  proof (cases "c_Since (hd (job_catchup job)) = None \<or> c_Since (hd (job_catchup job)) = Some rv")
    case True
    note linked = this
    show ?thesis
    proof (cases "accepted e 0 (job_catchup job)")
      case True
      with linked job body show ?thesis
        by (auto simp: FetchAndIndexRepo_body_eq)
    next
      case False
      with linked job body have "fetch_and_import e
          ((tickup s)\<lparr>calls := calls (tickup s) @ map (replay_call pds (job_act job))
                                   (replayed e 0 (job_catchup job))\<rparr>) (job_act job) rv = (r, s')"
        by (auto simp: FetchAndIndexRepo_body_eq)
      from fetch_and_import_fetches[OF this] False linked show ?thesis
        by auto
    qed
  next
    case False
    with job body have "fetch_and_import e (tickup s) (job_act job) rv = (r, s')"
      by (auto simp: FetchAndIndexRepo_body_eq)
    from fetch_and_import_fetches[OF this] False show ?thesis
      by auto
  qed
qed

text \<open>
  The theorem at scenario S5: both buffered events are replayed in order, and no fetch is
  issued.
\<close>

theorem FetchAndIndexRepo_catchup_witness:
  "fst (FetchAndIndexRepo W_env W_state S5_job) = None
   \<and> calls (snd (FetchAndIndexRepo W_env W_state S5_job))
       = [CallHandleExternalUserEvent 1 2 ''did:plc:v'' (Some ''r0'') ''r1'' None None,
          CallHandleExternalUserEvent 1 2 ''did:plc:v'' (Some ''r1'') ''r2'' None None]"
proof -
  let ?r = "FetchAndIndexRepo W_env W_state S5_job"
  let ?pds = "\<lparr>pds_ID = 1, pds_Host = ''pds.example.com''\<rparr>"
  have run: "?r = (fst ?r, snd ?r)" by simp
  have j1: "\<not> job_initScrape S5_job" and j2: "job_catchup S5_job \<noteq> []"
    by (simp_all add: S6_defs)
  have p1: "\<not> failing W_env W_state"
    by (simp add: failing_def S6_defs)
  have p2: "filter (\<lambda>p. pds_ID p = ai_PDS (job_act S5_job)) (pdss W_state) = ?pds # []"
    by (simp add: S6_defs)
  have r1: "GetRepoRev W_env (ai_Uid (job_act S5_job)) = (''r0'', None)"
    by (simp add: S6_defs)
  have r2: "(None :: err option) = None \<or> (\<exists>y. (None :: err option) = Some y \<and> isNotFound y)"
    by simp
  from FetchAndIndexRepo_catchup[OF j1 j2 p1 p2 r1 r2 run] show ?thesis
    by (simp add: S6_defs replay_call_def)
qed

subsection \<open>The up-count\<close>

lemma tickup_fields [simp]:
  "actors (tickup s) = actors s" "posts (tickup s) = posts s" "votes (tickup s) = votes s"
  "follows (tickup s) = follows s" "reposts (tickup s) = reposts s"
  "next_post_id (tickup s) = next_post_id s" "next_vote_id (tickup s) = next_vote_id s"
  "notifs (tickup s) = notifs s" "tick (tickup s) = Suc (tick s)"
  by (simp_all add: tickup_def)

text \<open>The user directory touches neither posts nor votes.\<close>

lemma likes_frame_LookupUser:
  "LookupUser e s u = (r, s') \<Longrightarrow>
     posts s' = posts s \<and> votes s' = votes s \<and> next_post_id s' = next_post_id s
     \<and> next_vote_id s' = next_vote_id s"
  by (auto simp: LookupUser_def tickup_def split: if_splits list.splits)

lemma likes_frame_GetUserOrMissing:
  "GetUserOrMissing e s d = (r, s') \<Longrightarrow>
     posts s' = posts s \<and> votes s' = votes s \<and> next_post_id s' = next_post_id s
     \<and> next_vote_id s' = next_vote_id s"
  by (auto simp: GetUserOrMissing_def LookupUserByDid_def createMissingUserRecord_def
      addUserToCrawler_def tickup_def Let_def
      split: if_splits list.splits sum.splits prod.splits option.splits)

lemma inv_frame:
  "posts s' = posts s \<Longrightarrow> votes s' = votes s \<Longrightarrow> next_post_id s' = next_post_id s \<Longrightarrow>
   next_vote_id s' = next_vote_id s \<Longrightarrow> keys_ok s' = keys_ok s \<and> up_count_ok s' = up_count_ok s"
  by (simp add: keys_ok_def up_count_ok_def)

lemma inv_tickup [simp]: "keys_ok (tickup s) = keys_ok s" "up_count_ok (tickup s) = up_count_ok s"
  by (simp_all add: keys_ok_def up_count_ok_def tickup_def)

lemma Create_post_inv:
  assumes "Create_post e s fp = (r, s')" and "fp_UpCount fp = 0" and "keys_ok s" and "up_count_ok s"
  shows "keys_ok s' \<and> up_count_ok s' \<and> votes s' = votes s \<and> next_vote_id s' = next_vote_id s
     \<and> (case r of Inl x \<Rightarrow> True | Inr p \<Rightarrow> p \<in> set (posts s'))"
proof (cases "failing e s \<or> list_ex (same_post_key fp) (posts s)")
  case True
  with assms show ?thesis
    by (auto simp: Create_post_def split: if_splits)
next
  case False
  let ?row = "fp\<lparr>fp_ID := next_post_id s\<rparr>"
  from False assms(1) have r: "r = Inr ?row"
    and s': "s' = (tickup s)\<lparr>posts := posts s @ [?row], next_post_id := Suc (next_post_id s)\<rparr>"
    by (auto simp: Create_post_def Let_def)
  have none: "filter (\<lambda>v. vr_Post v = next_post_id s) (votes s) = []"
    using assms(3) by (auto simp: keys_ok_def list_all_iff filter_empty_conv)
  have k: "keys_ok s'"
    using assms(3) by (auto simp: s' keys_ok_def tickup_def list_all_iff less_Suc_eq)
  have u: "up_count_ok s'"
    using assms(2,4) none by (auto simp: s' up_count_ok_def tickup_def list_all_iff)
  show ?thesis
    using k u by (simp add: r) (simp add: s' tickup_def)
qed

lemma FirstOrCreate_missing_inv:
  assumes "FirstOrCreate_missing e s a k = (r, s')" and "keys_ok s" and "up_count_ok s"
  shows "keys_ok s' \<and> up_count_ok s' \<and> votes s' = votes s \<and> next_vote_id s' = next_vote_id s
     \<and> (case r of Inl x \<Rightarrow> True | Inr p \<Rightarrow> p \<in> set (posts s'))"
proof (cases "failing e s")
  case True
  with assms show ?thesis
    by (auto simp: FirstOrCreate_missing_def)
next
  case False
  note nf = this
  let ?P = "\<lambda>p. (a = 0 \<or> fp_Author p = a) \<and> (k = [] \<or> fp_Rkey p = k) \<and> fp_Missing p"
  show ?thesis
  proof (cases "filter ?P (posts s)")
    case Nil
    with nf assms(1) have "Create_post e (tickup s)
        (zero_FeedPost\<lparr>fp_Author := a, fp_Rkey := k, fp_Missing := True\<rparr>) = (r, s')"
      by (simp add: FirstOrCreate_missing_def)
    from Create_post_inv[OF this] assms(2,3) show ?thesis
      by (simp add: zero_FeedPost_def)
  next
    case (Cons p ps)
    then have "p \<in> set (posts s)"
      by (auto simp: filter_eq_Cons_iff)
    with Cons nf assms show ?thesis
      by (auto simp: FirstOrCreate_missing_def)
  qed
qed

lemma GetPostOrMissing_inv:
  assumes "GetPostOrMissing e s uri = (r, s')" and "keys_ok s" and "up_count_ok s"
  shows "keys_ok s' \<and> up_count_ok s' \<and> votes s' = votes s \<and> next_vote_id s' = next_vote_id s
     \<and> (case r of Inl x \<Rightarrow> True | Inr p \<Rightarrow> p \<in> set (posts s'))"
proof (cases "ParseAtUri e uri")
  case (Inl x)
  with assms show ?thesis
    by (auto simp: GetPostOrMissing_def)
next
  case (Inr puri)
  note parsed = this
  show ?thesis
  proof (cases "failing e s")
    case True
    with parsed assms show ?thesis
      by (auto simp: GetPostOrMissing_def)
  next
    case False
    note nf = this
    let ?post = "case posts_by_uri s puri of [] \<Rightarrow> zero_FeedPost | p # ps \<Rightarrow> p"
    show ?thesis
    proof (cases "fp_ID ?post = 0")
      case True
      with parsed nf assms(1) have cm: "createMissingPostRecord e (tickup s) puri = (r, s')"
        by (simp add: GetPostOrMissing_def Let_def)
      obtain ru s1 where gu: "GetUserOrMissing e (tickup s) (pu_Did puri) = (ru, s1)"
        by (cases "GetUserOrMissing e (tickup s) (pu_Did puri)")
      from likes_frame_GetUserOrMissing[OF gu]
      have fr: "posts s1 = posts s" "votes s1 = votes s" "next_post_id s1 = next_post_id s"
        "next_vote_id s1 = next_vote_id s"
        by (simp_all add: tickup_def)
      from inv_frame[OF fr] assms(2,3) have i1: "keys_ok s1" "up_count_ok s1"
        by simp_all
      show ?thesis
      proof (cases ru)
        case (Inl x)
        with cm gu i1 fr show ?thesis
          by (auto simp: createMissingPostRecord_def)
      next
        case (Inr ai)
        with cm gu have "FirstOrCreate_missing e s1 (ai_Uid ai) (pu_Rkey puri) = (r, s')"
          by (simp add: createMissingPostRecord_def)
        from FirstOrCreate_missing_inv[OF this i1] fr show ?thesis
          by simp
      qed
    next
      case False
      then obtain p ps where pp: "posts_by_uri s puri = p # ps"
        by (cases "posts_by_uri s puri") (auto simp: zero_FeedPost_def)
      then have "p \<in> set (posts s)"
        by (auto simp: posts_by_uri_def filter_eq_Cons_iff split: list.splits)
      with False pp parsed nf assms show ?thesis
        by (auto simp: GetPostOrMissing_def Let_def)
    qed
  qed
qed


lemma filter_remove_distinct:
  assumes "distinct (map f vs)" and "v \<in> set vs"
  shows "length (filter P (filter (\<lambda>w. f w \<noteq> f v) vs))
           = length (filter P vs) - (if P v then 1 else 0)"
  using assms
proof (induction vs)
  case Nil
  then show ?case by simp
next
  case (Cons w ws)
  show ?case
  proof (cases "w = v")
    case True
    with Cons.prems have "\<forall>u\<in>set ws. f u \<noteq> f v"
      by (auto simp: image_iff)
    then have "filter (\<lambda>u. f u \<noteq> f v) ws = ws"
      by (simp add: filter_id_conv)
    with True show ?thesis by simp
  next
    case False
    with Cons.prems have v: "v \<in> set ws" and d: "distinct (map f ws)" and ne: "f w \<noteq> f v"
      by (auto simp: image_iff)
    from Cons.IH[OF d v] have ih: "length (filter P (filter (\<lambda>u. f u \<noteq> f v) ws))
           = length (filter P ws) - (if P v then 1 else 0)" .
    have pos: "P v \<Longrightarrow> 0 < length (filter P ws)"
      using v by (auto simp: length_greater_0_conv filter_empty_conv)
    show ?thesis
      using ne ih pos by (cases "P v") auto
  qed
qed

lemma Update_up_count_result:
  "Update_up_count e s pid d = (None, s') \<Longrightarrow>
     s' = (tickup s)\<lparr>posts := map (\<lambda>p. if fp_ID p = pid then p\<lparr>fp_UpCount := fp_UpCount p + d\<rparr> else p)
                                  (posts s)\<rparr>"
  by (auto simp: Update_up_count_def split: if_splits)

lemma Delete_vote_result:
  "Delete_vote e s vid = (None, s') \<Longrightarrow>
     s' = (tickup s)\<lparr>votes := filter (\<lambda>v. vr_ID v \<noteq> vid) (votes s)\<rparr>"
  by (auto simp: Delete_vote_def split: if_splits)

text \<open>The two statements of the like delete, when both succeed, keep the invariant.\<close>

lemma delete_body_inv:
  assumes k: "keys_ok s" and u: "up_count_ok s"
    and vr: "vr = (case filter (\<lambda>v. vr_Voter v = uid \<and> vr_Rkey v = rkey) (votes s) of
                     [] \<Rightarrow> zero_VoteRecord | v # vs \<Rightarrow> v)"
    and s': "posts s' = map (\<lambda>p. if fp_ID p = vr_Post vr then p\<lparr>fp_UpCount := fp_UpCount p + (- 1)\<rparr> else p)
                          (posts s)"
            "votes s' = filter (\<lambda>v. vr_ID v \<noteq> vr_ID vr) (votes s)"
            "next_post_id s' = next_post_id s" "next_vote_id s' = next_vote_id s"
  shows "keys_ok s' \<and> up_count_ok s'"
proof (cases "filter (\<lambda>v. vr_Voter v = uid \<and> vr_Rkey v = rkey) (votes s)")
  case Nil
  with vr have z: "vr_ID vr = 0" "vr_Post vr = 0"
    by (simp_all add: zero_VoteRecord_def)
  have "votes s' = votes s"
    using k by (auto simp: s' z keys_ok_def list_all_iff filter_id_conv)
  moreover have "posts s' = posts s"
    using k by (auto simp: s' z keys_ok_def list_all_iff intro!: map_idI)
  ultimately show ?thesis
    using k u s' inv_frame[of s' s] by simp
next
  case (Cons v vs)
  with vr have vr_v: "vr = v" by simp
  from Cons have vin: "v \<in> set (votes s)"
    by (auto simp: filter_eq_Cons_iff)
  have dist: "distinct (map vr_ID (votes s))"
    using k by (simp add: keys_ok_def)
  have cnt: "length (filter (\<lambda>w. vr_Post w = q) (votes s'))
               = length (filter (\<lambda>w. vr_Post w = q) (votes s)) - (if vr_Post v = q then 1 else 0)" for q
    unfolding s' vr_v by (rule filter_remove_distinct[OF dist vin])
  have pos: "0 < length (filter (\<lambda>w. vr_Post w = vr_Post v) (votes s))"
    using vin by (auto simp: length_greater_0_conv filter_empty_conv)
  have k': "keys_ok s'"
    using k by (auto simp: keys_ok_def s' list_all_iff distinct_map_filter)
  have cv: "int (length (filter (\<lambda>w. vr_Post w = vr_Post v) (votes s')))
              = int (length (filter (\<lambda>w. vr_Post w = vr_Post v) (votes s))) - 1"
  proof -
    from pos obtain n where "length (filter (\<lambda>w. vr_Post w = vr_Post v) (votes s)) = Suc n"
      by (cases "length (filter (\<lambda>w. vr_Post w = vr_Post v) (votes s))") auto
    with cnt[of "vr_Post v"] show ?thesis by simp
  qed
  have co: "length (filter (\<lambda>w. vr_Post w = q) (votes s'))
              = length (filter (\<lambda>w. vr_Post w = q) (votes s))" if "q \<noteq> vr_Post v" for q
    using cnt[of q] that by auto
  have u': "up_count_ok s'"
    using u by (auto simp: up_count_ok_def s'(1) vr_v cv co list_all_iff)
  from k' u' show ?thesis ..
qed

lemma handleRecordDeleteFeedLike_inv:
  assumes "handleRecordDeleteFeedLike e s evt op = (r, s')" and "keys_ok s" and "up_count_ok s"
  shows "keys_ok s' \<and> up_count_ok s'"
proof (cases "r = None")
  case False
  then obtain x where "r = Some x" by auto
  with assms(1) have "votes s' = votes s \<and> posts s' = posts s \<and> next_post_id s' = next_post_id s
      \<and> next_vote_id s' = next_vote_id s"
    by (auto simp: handleRecordDeleteFeedLike_def Transaction_def rollback_def Let_def
        split: if_splits prod.splits option.splits)
  with assms(2,3) inv_frame[of s' s] show ?thesis by simp
next
  case True
  let ?vr = "case filter (\<lambda>v. vr_Voter v = ev_User evt \<and> vr_Rkey v = op_Rkey op) (votes s) of
               [] \<Rightarrow> zero_VoteRecord | v # vs \<Rightarrow> v"
  from True assms(1) have
    "posts s' = map (\<lambda>p. if fp_ID p = vr_Post ?vr then p\<lparr>fp_UpCount := fp_UpCount p + (- 1)\<rparr> else p)
                          (posts s)
     \<and> votes s' = filter (\<lambda>v. vr_ID v \<noteq> vr_ID ?vr) (votes s)
     \<and> next_post_id s' = next_post_id s \<and> next_vote_id s' = next_vote_id s"
    by (auto simp: handleRecordDeleteFeedLike_def Transaction_def Let_def
        split: if_splits prod.splits option.splits
        dest!: Update_up_count_result Delete_vote_result)
  with delete_body_inv[OF assms(2,3) refl, of s' "ev_User evt" "op_Rkey op"] show ?thesis
    by simp
qed


text \<open>The insert of a vote on a stored post, followed by the increment, keeps the invariant.\<close>

lemma vote_insert_inv:
  assumes k: "keys_ok s" and u: "up_count_ok s" and p: "post \<in> set (posts s)"
    and s': "votes s' = votes s @ [vr\<lparr>vr_ID := next_vote_id s\<rparr>]"
            "next_vote_id s' = Suc (next_vote_id s)"
            "posts s' = map (\<lambda>p. if fp_ID p = fp_ID post then p\<lparr>fp_UpCount := fp_UpCount p + 1\<rparr> else p)
                          (posts s)"
            "next_post_id s' = next_post_id s"
    and vp: "vr_Post vr = fp_ID post"
  shows "keys_ok s' \<and> up_count_ok s'"
proof
  have "fp_ID post < next_post_id s"
    using k p by (auto simp: keys_ok_def list_all_iff)
  then show "keys_ok s'"
    using k vp by (auto simp: keys_ok_def s' list_all_iff less_Suc_eq)
  show "up_count_ok s'"
    using u vp by (auto simp: up_count_ok_def s' list_all_iff)
qed

lemma Create_vote_result:
  assumes "Create_vote e s vr = (r, s')" and "\<not> failing e s"
  shows "(\<exists>x. r = Inl x \<and> s' = tickup s)
       \<or> (r = Inr (vr\<lparr>vr_ID := next_vote_id s\<rparr>)
          \<and> s' = (tickup s)\<lparr>votes := votes s @ [vr\<lparr>vr_ID := next_vote_id s\<rparr>],
                             next_vote_id := Suc (next_vote_id s)\<rparr>)"
  using assms by (auto simp: Create_vote_def Let_def split: if_splits)

lemma likes_frame_notify:
  "notify e s n = (r, s') \<Longrightarrow>
     posts s' = posts s \<and> votes s' = votes s \<and> next_post_id s' = next_post_id s
     \<and> next_vote_id s' = next_vote_id s"
  by (auto simp: notify_def split: if_splits)

lemma handleRecordCreateFeedLike_inv:
  assumes run: "handleRecordCreateFeedLike e s subject createdAt evt op = (r, s')"
    and nf: "\<forall>n. \<not> fails e n" and k: "keys_ok s" and u: "up_count_ok s"
  shows "keys_ok s' \<and> up_count_ok s'"
proof (cases subject)
  case None
  with run k u show ?thesis by (simp add: handleRecordCreateFeedLike_def)
next
  case (Some uri)
  obtain rp s1 where gp: "GetPostOrMissing e s uri = (rp, s1)"
    by (cases "GetPostOrMissing e s uri")
  from GetPostOrMissing_inv[OF gp k u] have i1: "keys_ok s1" "up_count_ok s1"
    and in1: "case rp of Inl x \<Rightarrow> True | Inr p \<Rightarrow> p \<in> set (posts s1)"
    by simp_all
  show ?thesis
  proof (cases rp)
    case (Inl x)
    with run Some gp i1 show ?thesis by (simp add: handleRecordCreateFeedLike_def)
  next
    case (Inr post)
    with in1 have pin: "post \<in> set (posts s1)" by simp
    obtain ra s2 where lu: "LookupUser e s1 (fp_Author post) = (ra, s2)"
      by (cases "LookupUser e s1 (fp_Author post)")
    note f2 = likes_frame_LookupUser[OF lu]
    with i1 inv_frame[of s2 s1] have i2: "keys_ok s2" "up_count_ok s2" by simp_all
    from pin f2 have pin2: "post \<in> set (posts s2)" by simp
    show ?thesis
    proof (cases ra)
      case (Inl x)
      with run Some gp Inr lu i2 show ?thesis by (simp add: handleRecordCreateFeedLike_def)
    next
      case (Inr act)
      note act = this
      show ?thesis
      proof (cases "op_RecCid op")
        case None
        with run Some gp \<open>rp = Inr post\<close> lu act i2 show ?thesis
          by (simp add: handleRecordCreateFeedLike_def)
      next
        case (Some rcid)
        let ?vr = "\<lparr>vr_ID = 0, vr_Voter = ev_User evt, vr_Post = fp_ID post,
                    vr_Created = createdAt, vr_Rkey = op_Rkey op, vr_Cid = rcid\<rparr>"
        obtain rv s3 where cv: "Create_vote e s2 ?vr = (rv, s3)"
          by (cases "Create_vote e s2 ?vr")
        have nf2: "\<not> failing e s2" using nf by (simp add: failing_def)
        from Create_vote_result[OF cv nf2] show ?thesis
        proof
          assume "\<exists>x. rv = Inl x \<and> s3 = tickup s2"
          with run \<open>subject = Some uri\<close> gp \<open>rp = Inr post\<close> lu act Some cv i2 show ?thesis
            by (auto simp: handleRecordCreateFeedLike_def)
        next
          assume ok: "rv = Inr (?vr\<lparr>vr_ID := next_vote_id s2\<rparr>)
            \<and> s3 = (tickup s2)\<lparr>votes := votes s2 @ [?vr\<lparr>vr_ID := next_vote_id s2\<rparr>],
                               next_vote_id := Suc (next_vote_id s2)\<rparr>"
          obtain ru s4 where up: "Update_up_count e s3 (fp_ID post) 1 = (ru, s4)"
            by (cases "Update_up_count e s3 (fp_ID post) 1")
          have "\<not> failing e s3" using nf by (simp add: failing_def)
          with up have ru: "ru = None"
            and s4: "s4 = (tickup s3)\<lparr>posts := map (\<lambda>p. if fp_ID p = fp_ID post
                        then p\<lparr>fp_UpCount := fp_UpCount p + 1\<rparr> else p) (posts s3)\<rparr>"
            by (auto simp: Update_up_count_def)
          have i4: "keys_ok s4 \<and> up_count_ok s4"
            by (rule vote_insert_inv[OF i2 pin2, of s4 ?vr]) (simp_all add: s4 ok)
          obtain rn where nt: "addNewVoteNotification e s4 (ai_Uid act) (?vr\<lparr>vr_ID := next_vote_id s2\<rparr>) = (rn, s')"
            using run \<open>subject = Some uri\<close> gp \<open>rp = Inr post\<close> lu act Some cv ok up ru
            by (auto simp: handleRecordCreateFeedLike_def)
          then have "posts s' = posts s4 \<and> votes s' = votes s4 \<and> next_post_id s' = next_post_id s4
              \<and> next_vote_id s' = next_vote_id s4"
            by (auto simp: addNewVoteNotification_def dest: likes_frame_notify)
          with i4 inv_frame[of s' s4] show ?thesis by simp
        qed
      qed
    qed
  qed
qed

lemma likes_frame_crawlAtUriRef:
  "posts (snd (crawlAtUriRef e s uri)) = posts s \<and> votes (snd (crawlAtUriRef e s uri)) = votes s
   \<and> next_post_id (snd (crawlAtUriRef e s uri)) = next_post_id s
   \<and> next_vote_id (snd (crawlAtUriRef e s uri)) = next_vote_id s"
  by (auto simp: crawlAtUriRef_def split: sum.splits prod.splits dest!: likes_frame_GetUserOrMissing)

text \<open>A like operation handled by \<^verbatim>\<open>handleRepoOp\<close> keeps the invariant.\<close>

lemma handleRepoOp_like_inv:
  assumes run: "handleRepoOp e s evt op = (r, s')" and like: "is_like_op op"
    and nf: "\<forall>n. \<not> fails e n" and k: "keys_ok s" and u: "up_count_ok s"
  shows "keys_ok s' \<and> up_count_ok s'"
proof (cases "op_Kind op = EvtKindCreateRecord")
  case True
  with like obtain subject createdAt where rec: "op_Record op = FeedLike_rec subject createdAt"
    by (auto simp: is_like_op_def EvtKindCreateRecord_def EvtKindDeleteRecord_def
        split: bsky_record.splits)
  obtain r1 s1 where h: "(if doAggregations e then handleRecordCreate e s evt op else (None, s)) = (r1, s1)"
    by (cases "if doAggregations e then handleRecordCreate e s evt op else (None, s)")
  have i1: "keys_ok s1 \<and> up_count_ok s1"
  proof (cases "doAggregations e")
    case True
    with h rec have "handleRecordCreateFeedLike e s subject createdAt evt op = (r1, s1)"
      by (simp add: handleRecordCreate_def)
    from handleRecordCreateFeedLike_inv[OF this nf k u] show ?thesis .
  next
    case False
    with h k u show ?thesis by simp
  qed
  show ?thesis
  proof (cases r1)
    case (Some x)
    with run True h i1 show ?thesis by (simp add: handleRepoOp_def)
  next
    case None
    with run True h have "crawlRecordReferences e s1 op = (r, s')"
      by (simp add: handleRepoOp_def)
    with rec have "posts s' = posts s1 \<and> votes s' = votes s1 \<and> next_post_id s' = next_post_id s1
        \<and> next_vote_id s' = next_vote_id s1"
      using likes_frame_crawlAtUriRef[of e s1]
      by (auto simp: crawlRecordReferences_def split: option.splits)
    with i1 inv_frame[of s' s1] show ?thesis by simp
  qed
next
  case False
  with like have del: "op_Kind op = EvtKindDeleteRecord"
    and coll: "op_Collection op = ''app.bsky.feed.like'' \<or> op_Collection op = ''app.bsky.feed.vote''"
    by (auto simp: is_like_op_def)
  obtain r1 s1 where h: "(if doAggregations e then handleRecordDelete e s evt op else (None, s)) = (r1, s1)"
    by (cases "if doAggregations e then handleRecordDelete e s evt op else (None, s)")
  have "keys_ok s1 \<and> up_count_ok s1"
  proof (cases "doAggregations e")
    case False
    with h k u show ?thesis by simp
  next
    case True
    from coll show ?thesis
    proof
      assume "op_Collection op = ''app.bsky.feed.like''"
      with h True k u show ?thesis by (simp add: handleRecordDelete_def)
    next
      assume "op_Collection op = ''app.bsky.feed.vote''"
      with h True have "handleRecordDeleteFeedLike e s evt op = (r1, s1)"
        by (simp add: handleRecordDelete_def)
      from handleRecordDeleteFeedLike_inv[OF this k u] show ?thesis .
    qed
  qed
  moreover from run False del h have "s' = s1"
    by (auto simp: handleRepoOp_def split: option.splits)
  ultimately show ?thesis by simp
qed

lemma like_steps_inv:
  assumes "\<forall>n. \<not> fails e n"
  shows "list_all like_step_ok steps \<Longrightarrow> keys_ok s \<Longrightarrow> up_count_ok s \<Longrightarrow>
     keys_ok (like_steps e s steps) \<and> up_count_ok (like_steps e s steps)"
proof (induction steps arbitrary: s)
  case Nil
  then show ?case by simp
next
  case (Cons st steps)
  from Cons.prems(1) have ok: "like_step_ok st" and oks: "list_all like_step_ok steps"
    by simp_all
  show ?case
  proof (cases st)
    case (LikeOp evt op)
    obtain r s1 where run: "handleRepoOp e s evt op = (r, s1)"
      by (cases "handleRepoOp e s evt op")
    from ok LikeOp have "is_like_op op" by simp
    from handleRepoOp_like_inv[OF run this assms Cons.prems(2,3)]
    have "keys_ok s1" "up_count_ok s1" by simp_all
    from Cons.IH[OF oks this] LikeOp run show ?thesis by simp
  next
    case (LikeCreate subject createdAt evt op)
    obtain r s1 where run: "handleRecordCreateFeedLike e s subject createdAt evt op = (r, s1)"
      by (cases "handleRecordCreateFeedLike e s subject createdAt evt op")
    from handleRecordCreateFeedLike_inv[OF run assms Cons.prems(2,3)]
    have "keys_ok s1" "up_count_ok s1" by simp_all
    from Cons.IH[OF oks this] LikeCreate run show ?thesis by simp
  next
    case (LikeDelete evt op)
    obtain r s1 where run: "handleRecordDeleteFeedLike e s evt op = (r, s1)"
      by (cases "handleRecordDeleteFeedLike e s evt op")
    from handleRecordDeleteFeedLike_inv[OF run Cons.prems(2,3)]
    have "keys_ok s1" "up_count_ok s1" by simp_all
    from Cons.IH[OF oks this] LikeDelete run show ?thesis by simp
  qed
qed

text \<open>
  While no step of the database or of a collaborator fails, the up-counts are conserved: from
  a state in which every stored post has as up-count the number of VoteRecord rows that
  refer to it, after any sequence of like creates and like deletes, handled by the indexer
  or run by the two handlers directly, every stored post again has as up-count the number
  of VoteRecord rows that refer to it. (The creates need not have fresh keys and the deletes
  need not match a create: a second create with the same key adds a second row and
  increments again, and a delete that finds no row changes neither side.)
\<close>

lemma up_count_kept_without_failure:
  assumes "\<forall>n. \<not> fails e n" and "list_all like_step_ok steps"
    and "keys_ok s" and "up_count_ok s"
    and "P \<in> set (posts (like_steps e s steps))"
  shows "fp_UpCount P
     = int (length (filter (\<lambda>v. vr_Post v = fp_ID P) (votes (like_steps e s steps))))"
  using like_steps_inv[OF assms(1-4)] assms(5)
  by (auto simp: up_count_ok_def list_all_iff)

text \<open>
  At scenario S3, with no failing step: the indexer handles the like of P by V, then the like
  delete runs. After the create P has up-count 1 and there is one VoteRecord; after the
  delete, up-count 0 and none.
\<close>

lemma up_count_kept_S3:
  "posts (like_steps W_env W_state [LikeOp (W_event [W_like_op] None) W_like_op])
     = [W_post\<lparr>fp_UpCount := 1\<rparr>]
   \<and> length (filter (\<lambda>v. vr_Post v = fp_ID W_post)
        (votes (like_steps W_env W_state [LikeOp (W_event [W_like_op] None) W_like_op]))) = 1
   \<and> posts (like_steps W_env W_state
       [LikeOp (W_event [W_like_op] None) W_like_op,
        LikeDelete (W_event [W_unlike_op] None) W_unlike_op])
     = [W_post]
   \<and> votes (like_steps W_env W_state
       [LikeOp (W_event [W_like_op] None) W_like_op,
        LikeDelete (W_event [W_unlike_op] None) W_unlike_op])
     = []"
proof -
  let ?steps = "[LikeOp (W_event [W_like_op] None) W_like_op]"
  have nf: "\<forall>n. \<not> fails W_env n" by (simp add: W_env_def)
  have ok: "list_all like_step_ok ?steps"
    by (simp add: is_like_op_def W_like_op_def)
  have k: "keys_ok W_state" by (simp add: keys_ok_def W_defs)
  have u: "up_count_ok W_state" by (simp add: up_count_ok_def W_defs)
  have p1: "posts (like_steps W_env W_state ?steps) = [W_post\<lparr>fp_UpCount := 1\<rparr>]"
    by (simp add: ix_defs W_defs)
  then have "W_post\<lparr>fp_UpCount := 1\<rparr> \<in> set (posts (like_steps W_env W_state ?steps))"
    by simp
  from up_count_kept_without_failure[OF nf ok k u this]
  have "length (filter (\<lambda>v. vr_Post v = fp_ID W_post) (votes (like_steps W_env W_state ?steps))) = 1"
    by simp
  moreover have "posts (like_steps W_env W_state
       (?steps @ [LikeDelete (W_event [W_unlike_op] None) W_unlike_op])) = [W_post]
     \<and> votes (like_steps W_env W_state
       (?steps @ [LikeDelete (W_event [W_unlike_op] None) W_unlike_op])) = []"
    by (simp add: ix_defs W_defs W_unlike_op_def zero_VoteRecord_def)
  ultimately show ?thesis
    using p1 by simp
qed

text \<open>
  C1. The claim: after any sequence of like creates (each with a fresh (voter, rkey)) and
  matching like deletes on a post P, the up-count of P is the number of VoteRecord rows
  whose post is P. The code at scenario S3, where P has up-count 0 and no VoteRecord refers
  to it: the indexer handles one like create, of V on P, and the database fails the
  \<^verbatim>\<open>UPDATE\<close> of the up-count (the fourth statement of the handler). The handler has
  inserted the VoteRecord by then and runs in no transaction, so the row stays: afterwards
  one VoteRecord refers to P and the up-count of P is still 0. The invariant held before
  the create and does not hold after it.
\<close>

theorem up_count_lost_by_failed_update:
  "up_count_ok W_state
   \<and> votes W_state = []
   \<and> posts (like_steps (W_env_fail 3) W_state [LikeOp (W_event [W_like_op] None) W_like_op])
       = [W_post]
   \<and> fp_UpCount W_post = 0
   \<and> filter (\<lambda>v. vr_Post v = fp_ID W_post)
         (votes (like_steps (W_env_fail 3) W_state [LikeOp (W_event [W_like_op] None) W_like_op]))
       = [\<lparr>vr_ID = 1, vr_Voter = 2, vr_Post = 1, vr_Created = ''2023-06-01'', vr_Rkey = ''l1'',
           vr_Cid = ''bafylike''\<rparr>]
   \<and> \<not> up_count_ok (like_steps (W_env_fail 3) W_state [LikeOp (W_event [W_like_op] None) W_like_op])"
  by (simp add: up_count_ok_def ix_defs W_defs W_env_fail_def)

subsection \<open>Duplicate post creates\<close>





end
